theory Spec2Isabelle
  imports Main "HOL-Library.AList"
begin

section \<open>Strings and numbers as the JavaScript code uses them\<close>

text \<open>
  JavaScript strings are modelled as \<^typ>\<open>string\<close>. The helpers below are the
  string operations the sources call (\<open>toLowerCase\<close>, \<open>startsWith\<close>, \<open>split\<close>,
  \<open>join\<close>, printing and reading of decimal numbers), written so that they evaluate
  on literals.
\<close>

definition lc :: "char \<Rightarrow> char" where
  "lc c = (case map_of (zip ''ABCDEFGHIJKLMNOPQRSTUVWXYZ'' ''abcdefghijklmnopqrstuvwxyz'') c of
     None \<Rightarrow> c | Some d \<Rightarrow> d)"

definition toLowerCase :: "string \<Rightarrow> string" where
  "toLowerCase s = map lc s"

definition is_alpha :: "char \<Rightarrow> bool" where
  "is_alpha c = (c \<in> set ''abcdefghijklmnopqrstuvwxyzABCDEFGHIJKLMNOPQRSTUVWXYZ'')"

definition is_digit :: "char \<Rightarrow> bool" where
  "is_digit c = (c \<in> set ''0123456789'')"

fun starts_with :: "string \<Rightarrow> string \<Rightarrow> bool" where
  "starts_with [] s = True"
| "starts_with (p # ps) [] = False"
| "starts_with (p # ps) (c # cs) = (p = c \<and> starts_with ps cs)"

fun contains :: "string \<Rightarrow> string \<Rightarrow> bool" where
  "contains p [] = (p = [])"
| "contains p (c # cs) = (starts_with p (c # cs) \<or> contains p cs)"

fun split_on :: "char \<Rightarrow> string \<Rightarrow> string list" where
  "split_on d [] = [[]]"
| "split_on d (c # cs) =
     (if c = d then [] # split_on d cs
      else (case split_on d cs of [] \<Rightarrow> [[c]] | x # xs \<Rightarrow> (c # x) # xs))"

fun join :: "string \<Rightarrow> string list \<Rightarrow> string" where
  "join d [] = []"
| "join d [x] = x"
| "join d (x # y # ys) = x @ d @ join d (y # ys)"

definition digit_char :: "nat \<Rightarrow> char" where
  "digit_char d = ''0123456789'' ! d"

function show_nat :: "nat \<Rightarrow> string" where
  "show_nat n = (if n < 10 then [digit_char n] else show_nat (n div 10) @ [digit_char (n mod 10)])"
  by pat_completeness auto
termination
  by (relation "measure id") (simp_all add: div_less_dividend)

declare show_nat.simps [simp del]

definition digit_val :: "char \<Rightarrow> nat" where
  "digit_val c = (case map_of (zip ''0123456789'' [0, 1, 2, 3, 4, 5, 6, 7, 8, 9]) c of
     None \<Rightarrow> 0 | Some d \<Rightarrow> d)"

definition parse_nat :: "string \<Rightarrow> nat" where
  "parse_nat s = foldl (\<lambda>a c. 10 * a + digit_val c) 0 s"

section \<open>The platform's URL constructor\<close>

text \<open>
  \<open>parseURL\<close>, \<open>getProxyForUrl\<close> and \<open>handleRedirectStatus\<close> call the runtime's
  \<open>new URL(input)\<close> and \<open>new URL(input, base)\<close>. The constructor is modelled after the
  URL Standard's basic parser: leading and trailing C0 controls and spaces are removed,
  tabs and newlines are dropped, the scheme is the lower-cased text before the first
  colon and must start with a letter, a special scheme (http, https, ws, wss, ftp) swallows
  any run of slashes before the authority, the authority splits into credentials, host
  and port, a port must be decimal and at most 65535 and is dropped when it is the
  scheme's default, and the path loses its dot segments. A failure of the parser is
  the \<open>TypeError\<close> that the constructor throws, here \<open>None\<close>.

  Not modelled: percent-encoding and percent-decoding, internationalised host names,
  the canonical spelling of IPv4 and IPv6 literals, and the file scheme. On input that
  needs none of these the record below holds what the platform's URL object holds.
\<close>

record URL =
  scheme :: string
  username :: string
  password :: string
  host :: "string option"
  port :: "nat option"
  path :: string
  query :: "string option"
  fragment :: "string option"

definition protocol :: "URL \<Rightarrow> string" where
  "protocol u = scheme u @ '':''"

definition hostname :: "URL \<Rightarrow> string" where
  "hostname u = (case host u of None \<Rightarrow> [] | Some h \<Rightarrow> h)"

definition port_str :: "URL \<Rightarrow> string" where
  "port_str u = (case port u of None \<Rightarrow> [] | Some p \<Rightarrow> show_nat p)"

definition href :: "URL \<Rightarrow> string" where
  "href u =
     scheme u @ '':'' @
     (case host u of
        None \<Rightarrow> []
      | Some h \<Rightarrow>
          ''//'' @
          (if username u \<noteq> [] \<or> password u \<noteq> []
           then username u @ (if password u \<noteq> [] then '':'' @ password u else []) @ ''@''
           else []) @
          h @ (case port u of None \<Rightarrow> [] | Some p \<Rightarrow> '':'' @ show_nat p)) @
     path u @
     (case query u of None \<Rightarrow> [] | Some q \<Rightarrow> ''?'' @ q) @
     (case fragment u of None \<Rightarrow> [] | Some f \<Rightarrow> ''#'' @ f)"

definition c0_or_space :: "char \<Rightarrow> bool" where
  "c0_or_space c = ((of_char c :: nat) \<le> 32)"

definition tab_or_newline :: "char \<Rightarrow> bool" where
  "tab_or_newline c = ((of_char c :: nat) \<in> {9, 10, 13})"

definition url_clean :: "string \<Rightarrow> string" where
  "url_clean s =
     filter (\<lambda>c. \<not> tab_or_newline c)
       (rev (dropWhile c0_or_space (rev (dropWhile c0_or_space s))))"

definition is_scheme_char :: "char \<Rightarrow> bool" where
  "is_scheme_char c = (is_alpha c \<or> is_digit c \<or> c \<in> set ''+-.'')"

definition split_scheme :: "string \<Rightarrow> (string \<times> string) option" where
  "split_scheme s =
     (case s of
        [] \<Rightarrow> None
      | c # cs \<Rightarrow>
          if \<not> is_alpha c then None
          else (case dropWhile is_scheme_char s of
                  [] \<Rightarrow> None
                | d # r \<Rightarrow> if d = CHR '':'' then Some (toLowerCase (takeWhile is_scheme_char s), r)
                           else None))"

definition default_port :: "string \<Rightarrow> nat option" where
  "default_port sch =
     (if sch = ''http'' \<or> sch = ''ws'' then Some 80
      else if sch = ''https'' \<or> sch = ''wss'' then Some 443
      else if sch = ''ftp'' then Some 21
      else None)"

definition is_special :: "string \<Rightarrow> bool" where
  "is_special sch = (default_port sch \<noteq> None)"

definition is_slash :: "bool \<Rightarrow> char \<Rightarrow> bool" where
  "is_slash special c = (c = CHR ''/'' \<or> (special \<and> c = CHR 0x5C))"

definition forbidden_host_char :: "bool \<Rightarrow> char \<Rightarrow> bool" where
  "forbidden_host_char special c =
     (c0_or_space c \<or> c \<in> set ''#/:<>?@[]^|'' \<or> c = CHR 0x5C \<or>
      (special \<and> (c = CHR ''%'' \<or> c = CHR 0x7F)))"

definition parse_host :: "bool \<Rightarrow> string \<Rightarrow> string option" where
  "parse_host special h =
     (if starts_with ''['' h
      then (if h \<noteq> ''[]'' \<and> last h = CHR '']'' \<and>
               list_all (\<lambda>c. c \<in> set ''0123456789abcdefABCDEF:.'') (butlast (tl h))
            then Some (toLowerCase h) else None)
      else if list_ex (forbidden_host_char special) h then None
      else Some (if special then toLowerCase h else h))"

definition split_host_port :: "string \<Rightarrow> string \<times> string option" where
  "split_host_port hp =
     (let h = (if starts_with ''['' hp
               then takeWhile (\<lambda>c. c \<noteq> CHR '']'') hp @ take 1 (dropWhile (\<lambda>c. c \<noteq> CHR '']'') hp)
               else takeWhile (\<lambda>c. c \<noteq> CHR '':'') hp);
          r = drop (length h) hp
      in (case r of
            [] \<Rightarrow> (h, None)
          | c # ds \<Rightarrow> if c = CHR '':'' then (h, Some ds) else (hp, None)))"

definition parse_port :: "string \<Rightarrow> string option \<Rightarrow> nat option option" where
  "parse_port sch po =
     (case po of
        None \<Rightarrow> Some None
      | Some ds \<Rightarrow>
          if \<not> list_all is_digit ds then None
          else if ds = [] then Some None
          else if parse_nat ds > 65535 then None
          else if default_port sch = Some (parse_nat ds) then Some None
          else Some (Some (parse_nat ds)))"

definition is_single_dot :: "string \<Rightarrow> bool" where
  "is_single_dot s = (toLowerCase s = ''.'' \<or> toLowerCase s = ''%2e'')"

definition is_double_dot :: "string \<Rightarrow> bool" where
  "is_double_dot s =
     (toLowerCase s = ''..'' \<or> toLowerCase s = ''.%2e'' \<or>
      toLowerCase s = ''%2e.'' \<or> toLowerCase s = ''%2e%2e'')"

definition shorten :: "string \<Rightarrow> string" where
  "shorten p = rev (drop 1 (dropWhile (\<lambda>c. c \<noteq> CHR ''/'') (rev p)))"

fun path_state :: "string \<Rightarrow> string list \<Rightarrow> string" where
  "path_state p [] = p"
| "path_state p (s # ss) =
     (if is_double_dot s then (if ss = [] then shorten p @ ''/'' else path_state (shorten p) ss)
      else if is_single_dot s then (if ss = [] then p @ ''/'' else path_state p ss)
      else path_state (p @ ''/'' @ s) ss)"

definition unslash :: "bool \<Rightarrow> string \<Rightarrow> string" where
  "unslash special s = map (\<lambda>c. if is_slash special c then CHR ''/'' else c) s"

definition split_tail :: "string \<Rightarrow> string \<times> string option \<times> string option" where
  "split_tail t =
     (let p = takeWhile (\<lambda>c. c \<noteq> CHR ''?'' \<and> c \<noteq> CHR ''#'') t;
          r = drop (length p) t
      in (case r of
            [] \<Rightarrow> (p, None, None)
          | c # r' \<Rightarrow>
              if c = CHR ''?''
              then (p, Some (takeWhile (\<lambda>c. c \<noteq> CHR ''#'') r'),
                    (case dropWhile (\<lambda>c. c \<noteq> CHR ''#'') r' of
                       [] \<Rightarrow> None | d # f \<Rightarrow> Some f))
              else (p, None, Some r')))"

definition path_of :: "bool \<Rightarrow> string \<Rightarrow> string \<Rightarrow> string" where
  "path_of special prefix p =
     (if p = [] then (if special \<and> prefix = [] then ''/'' else prefix)
      else path_state prefix
             (split_on (CHR ''/'')
                (unslash special (if is_slash special (hd p) then tl p else p))))"

definition parse_authority :: "string \<Rightarrow> string \<Rightarrow> URL option" where
  "parse_authority sch s =
     (let special = is_special sch;
          a = takeWhile (\<lambda>c. \<not> is_slash special c \<and> c \<noteq> CHR ''?'' \<and> c \<noteq> CHR ''#'') s;
          t = drop (length a) s;
          cred = (if CHR ''@'' \<in> set a
                  then Some (rev (drop 1 (dropWhile (\<lambda>c. c \<noteq> CHR ''@'') (rev a))))
                  else None);
          hp = rev (takeWhile (\<lambda>c. c \<noteq> CHR ''@'') (rev a));
          h = fst (split_host_port hp);
          po = snd (split_host_port hp)
      in if h = [] \<and> (special \<or> cred \<noteq> None \<or> po \<noteq> None) then None
         else (case parse_host special h of
                 None \<Rightarrow> None
               | Some h' \<Rightarrow>
                   (case parse_port sch po of
                      None \<Rightarrow> None
                    | Some p \<Rightarrow>
                        Some \<lparr> scheme = sch,
                               username = (case cred of None \<Rightarrow> []
                                 | Some c \<Rightarrow> takeWhile (\<lambda>c. c \<noteq> CHR '':'') c),
                               password = (case cred of None \<Rightarrow> []
                                 | Some c \<Rightarrow> drop 1 (dropWhile (\<lambda>c. c \<noteq> CHR '':'') c)),
                               host = Some h', port = p,
                               path = path_of special [] (fst (split_tail t)),
                               query = fst (snd (split_tail t)),
                               fragment = snd (snd (split_tail t)) \<rparr>)))"

definition relative_URL :: "URL \<Rightarrow> string \<Rightarrow> URL option" where
  "relative_URL b s =
     (let special = is_special (scheme b) in
      if host b = None \<and> \<not> starts_with ''/'' (path b)
      then (if starts_with ''#'' s then Some (b\<lparr> fragment := Some (tl s) \<rparr>) else None)
      else if s \<noteq> [] \<and> is_slash special (hd s)
      then (if tl s \<noteq> [] \<and> is_slash special (hd (tl s))
            then parse_authority (scheme b)
                   (if special then dropWhile (is_slash special) s else drop 2 s)
            else Some (b\<lparr> path := path_of special [] (fst (split_tail s)),
                          query := fst (snd (split_tail s)),
                          fragment := snd (snd (split_tail s)) \<rparr>))
      else if s = [] then Some (b\<lparr> fragment := None \<rparr>)
      else if hd s = CHR ''?''
      then Some (b\<lparr> query := fst (snd (split_tail s)), fragment := snd (snd (split_tail s)) \<rparr>)
      else if hd s = CHR ''#'' then Some (b\<lparr> fragment := Some (tl s) \<rparr>)
      else Some (b\<lparr> path := path_of special (shorten (path b)) (fst (split_tail s)),
                    query := fst (snd (split_tail s)),
                    fragment := snd (snd (split_tail s)) \<rparr>))"

definition url_parse :: "URL option \<Rightarrow> string \<Rightarrow> URL option" where
  "url_parse base input =
     (let s = url_clean input in
      case split_scheme s of
        None \<Rightarrow> (case base of None \<Rightarrow> None | Some b \<Rightarrow> relative_URL b s)
      | Some (sch, r) \<Rightarrow>
          if is_special sch
          then (case base of
                  None \<Rightarrow> parse_authority sch (dropWhile (is_slash True) r)
                | Some b \<Rightarrow>
                    if scheme b = sch \<and> \<not> starts_with ''//'' r then relative_URL b r
                    else parse_authority sch (dropWhile (is_slash True) r))
          else if starts_with ''//'' r then parse_authority sch (drop 2 r)
          else Some \<lparr> scheme = sch, username = [], password = [], host = None, port = None,
                      path = (if starts_with ''/'' r
                              then path_of False [] (fst (split_tail r))
                              else fst (split_tail r)),
                      query = fst (snd (split_tail r)),
                      fragment = snd (snd (split_tail r)) \<rparr>)"

definition new_URL :: "string \<Rightarrow> URL option" where
  "new_URL input = url_parse None input"

definition new_URL_base :: "string \<Rightarrow> string \<Rightarrow> URL option" where
  "new_URL_base input base =
     (case url_parse None base of None \<Rightarrow> None | Some b \<Rightarrow> url_parse (Some b) input)"

section \<open>utils.ts: parseURL and isValidHostName\<close>

datatype js_error = TypeError

text \<open>
  The regular expression of \<open>parseURL\<close>,
  \<^verbatim>\<open>/^(?:(https?:)?\/\/)?(([^\/?]+?)(?::(\d{0,5})(?=[\/?]|$))?)([\/?][\S\s]*|$)/i\<close>,
  is written out as the backtracking matcher reads it. \<open>scheme_prefix\<close> is
  \<^verbatim>\<open>/^https?:/i\<close> and yields the matched text and the rest. After the optional
  prefix the host and port groups cover exactly the text up to the first \<open>/\<close> or
  \<open>?\<close> (\<open>authority_seg\<close>), which must not be empty; the lazy host group makes the port
  group take the digits after the last colon when at most five digits follow it and the
  host before it is not empty (\<open>port_group\<close>). When the prefix is present and the text
  after it is empty, the matcher backtracks and matches without the prefix.
  \<open>url_match\<close> returns groups 1 and 4, the only ones \<open>parseURL\<close> reads.
\<close>

definition scheme_prefix :: "string \<Rightarrow> (string \<times> string) option" where
  "scheme_prefix s =
     (if toLowerCase (take 6 s) = ''https:'' then Some (take 6 s, drop 6 s)
      else if toLowerCase (take 5 s) = ''http:'' then Some (take 5 s, drop 5 s)
      else None)"

definition authority_seg :: "string \<Rightarrow> string" where
  "authority_seg s = takeWhile (\<lambda>c. c \<noteq> CHR ''/'' \<and> c \<noteq> CHR ''?'') s"

definition port_group :: "string \<Rightarrow> string option" where
  "port_group seg =
     (let d = takeWhile is_digit (rev seg) in
      case drop (length d) (rev seg) of
        [] \<Rightarrow> None
      | c # h \<Rightarrow> if c = CHR '':'' \<and> h \<noteq> [] \<and> length d \<le> 5 then Some (rev d) else None)"

definition match_rest :: "string option \<Rightarrow> string \<Rightarrow> (string option \<times> string option) option" where
  "match_rest m1 r =
     (if authority_seg r = [] then None else Some (m1, port_group (authority_seg r)))"

definition url_match :: "string \<Rightarrow> (string option \<times> string option) option" where
  "url_match s =
     (case (case scheme_prefix s of
              None \<Rightarrow> (if starts_with ''//'' s then match_rest None (drop 2 s) else None)
            | Some (sch, r) \<Rightarrow>
                (if starts_with ''//'' r then match_rest (Some sch) (drop 2 r) else None)) of
        Some m \<Rightarrow> Some m
      | None \<Rightarrow> match_rest None s)"

definition parseURL :: "string option \<Rightarrow> js_error + URL option" where
  "parseURL reqUrl =
     (case reqUrl of
        None \<Rightarrow> Inr None
      | Some s \<Rightarrow>
          if s = [] then Inr None
          else (case url_match s of
                  None \<Rightarrow> Inr None
                | Some (m1, m4) \<Rightarrow>
                    if m1 = None \<and> scheme_prefix s \<noteq> None then Inr None
                    else (let testUrl =
                                (if m1 = None
                                 then (if m4 = Some ''443'' then ''https:'' else ''http:'') @
                                      (if starts_with ''//'' s then s else ''//'' @ s)
                                 else s)
                          in case new_URL testUrl of
                               None \<Rightarrow> Inl TypeError
                             | Some parsed \<Rightarrow>
                                 if hostname parsed = [] then Inr None else Inr (Some parsed))))"

text \<open>
  The constants module of the repository (\<open>TOP_LEVEL_DOMAIN_REGEX\<close>,
  \<open>REDIRECT_STATUSES\<close>) is not among the sources, and \<open>net.isIPv4\<close>, \<open>net.isIPv6\<close> and
  the base64 encoder are the runtime's. They are parameters of the model: the two regular
  expression and address tests as predicates on strings.
\<close>

record env =
  TOP_LEVEL_DOMAIN_REGEX :: "string \<Rightarrow> bool"
  REDIRECT_STATUSES :: "nat list"
  isIPv4 :: "string \<Rightarrow> bool"
  isIPv6 :: "string \<Rightarrow> bool"
  base64 :: "string \<Rightarrow> string"

definition isValidHostName :: "env \<Rightarrow> string \<Rightarrow> bool" where
  "isValidHostName e h =
     (if h = [] then False
      else (TOP_LEVEL_DOMAIN_REGEX e h \<or> isIPv4 e h \<or> isIPv6 e h))"

section \<open>utils.ts: shouldProxyUrl and getProxyForUrl\<close>

text \<open>
  The four environment variables are read once; an unset variable is \<open>None\<close>. A value
  is truthy when it is set and not the empty string.
\<close>

record proxy_env =
  NO_PROXY :: "string option"
  HTTP_PROXY :: "string option"
  HTTPS_PROXY :: "string option"
  ALL_PROXY :: "string option"

definition truthy :: "string option \<Rightarrow> bool" where
  "truthy v = (case v of None \<Rightarrow> False | Some s \<Rightarrow> s \<noteq> [])"

text \<open>
  \<open>noProxyDomains.every(...)\<close>: the callback runs entry by entry and stops at the first
  entry for which it returns false; \<open>new URL(domain)\<close> throws on an entry that is not an
  absolute URL.
\<close>

fun every_domain :: "URL \<Rightarrow> string list \<Rightarrow> js_error + bool" where
  "every_domain proxiedUrl [] = Inr True"
| "every_domain proxiedUrl (domain # ds) =
     (if domain = [] then every_domain proxiedUrl ds
      else (case new_URL domain of
              None \<Rightarrow> Inl TypeError
            | Some domainUrl \<Rightarrow>
                if port_str domainUrl \<noteq> [] \<and> port_str domainUrl \<noteq> port_str proxiedUrl
                then every_domain proxiedUrl ds
                else if hostname domainUrl = hostname proxiedUrl
                then every_domain proxiedUrl ds
                else Inr False))"

definition shouldProxyUrl :: "proxy_env \<Rightarrow> string \<Rightarrow> js_error + bool" where
  "shouldProxyUrl pe url =
     (case NO_PROXY pe of
        None \<Rightarrow> Inr True
      | Some np \<Rightarrow>
          if np = [] then Inr True
          else if np = ''*'' then Inr False
          else (case new_URL url of
                  None \<Rightarrow> Inl TypeError
                | Some proxiedUrl \<Rightarrow> every_domain proxiedUrl (split_on (CHR '','') np)))"

definition getProxyForUrl :: "proxy_env \<Rightarrow> string \<Rightarrow> js_error + string option" where
  "getProxyForUrl pe url =
     (case new_URL url of
        None \<Rightarrow> Inl TypeError
      | Some u \<Rightarrow>
          if hostname u = [] then Inr None
          else (case shouldProxyUrl pe url of
                  Inl err \<Rightarrow> Inl err
                | Inr should \<Rightarrow>
                    if should then Inr None
                    else (let parsedProtocol = takeWhile (\<lambda>c. c \<noteq> CHR '':'') (protocol u);
                              p1 = (if parsedProtocol = ''http'' then HTTP_PROXY pe else None);
                              p2 = (if parsedProtocol = ''https'' then HTTPS_PROXY pe else p1);
                              p3 = (if truthy (ALL_PROXY pe) then ALL_PROXY pe else p2)
                          in Inr (case p3 of
                                    None \<Rightarrow> None
                                  | Some proxy \<Rightarrow>
                                      if proxy \<noteq> [] \<and> \<not> contains ''://'' proxy
                                      then Some (protocol u @ ''://'' @ proxy)
                                      else Some proxy))))"

section \<open>rateLimit.ts: the checker returned by createRateLimitChecker\<close>

text \<open>
  \<open>createRateLimitChecker\<close> reads \<open>maxRequestsPerPeriod\<close>, \<open>periodInMinutes\<close> and the
  pattern of unlimited hosts from its configuration string and returns a closure over
  them and over the mutable object \<open>accessedHosts\<close>. The record holds the three values
  (the compiled pattern as its \<open>test\<close> predicate, \<open>None\<close> when no pattern was given); the
  object is the state that a call takes and returns. The timer callback replaces the
  object by an empty one.
\<close>

record RateLimiter =
  maxRequestsPerPeriod :: nat
  periodInMinutes :: nat
  unlimitedPatternRegex :: "(string \<Rightarrow> bool) option"

type_synonym accessedHosts = "string \<Rightarrow> nat option"

definition rateLimitMessage :: "RateLimiter \<Rightarrow> string" where
  "rateLimitMessage rl =
     ''The number of requests is limited to '' @ show_nat (maxRequestsPerPeriod rl) @
     (if periodInMinutes rl = 1 then '' per minute''
      else '' per '' @ show_nat (periodInMinutes rl) @ '' minutes'') @
     ''. '' @
     ''Please self-host CORS Anywhere if you need more quota. '' @
     ''See https://github.com/Rob--W/cors-anywhere#demo-server''"

definition is_word_or_hyphen :: "char \<Rightarrow> bool" where
  "is_word_or_hyphen c = (is_alpha c \<or> is_digit c \<or> c = CHR ''_'' \<or> c = CHR ''-'')"

text \<open>\<^verbatim>\<open>origin.replace(/^[\w\-]+:\/\//i, "")\<close>\<close>

definition strip_scheme :: "string \<Rightarrow> string" where
  "strip_scheme origin =
     (let w = takeWhile is_word_or_hyphen origin; r = drop (length w) origin
      in if w \<noteq> [] \<and> starts_with ''://'' r then drop 3 r else origin)"

definition unlimited :: "RateLimiter \<Rightarrow> string \<Rightarrow> bool" where
  "unlimited rl h = (case unlimitedPatternRegex rl of None \<Rightarrow> False | Some test \<Rightarrow> test h)"

text \<open>\<open>accessedHosts[host] || 0\<close>, the count that the object holds for a host.\<close>

definition stored :: "accessedHosts \<Rightarrow> string \<Rightarrow> nat" where
  "stored accessed h = (case accessed h of None \<Rightarrow> 0 | Some c \<Rightarrow> c)"

definition checkRateLimit ::
  "RateLimiter \<Rightarrow> string \<Rightarrow> accessedHosts \<Rightarrow> string option \<times> accessedHosts" where
  "checkRateLimit rl origin accessed =
     (let h = strip_scheme origin in
      if unlimited rl h then (None, accessed)
      else (let count = stored accessed h + 1
            in if count > maxRequestsPerPeriod rl then (Some (rateLimitMessage rl), accessed)
               else (None, accessed(h \<mapsto> count))))"

definition resetAccessedHosts :: "accessedHosts \<Rightarrow> accessedHosts" where
  "resetAccessedHosts accessed = Map.empty"

text \<open>A sequence of calls, each on the state its predecessor left.\<close>

fun checkRateLimit_calls ::
  "RateLimiter \<Rightarrow> string list \<Rightarrow> accessedHosts \<Rightarrow> string option list \<times> accessedHosts" where
  "checkRateLimit_calls rl [] accessed = ([], accessed)"
| "checkRateLimit_calls rl (origin # os) accessed =
     (let r = checkRateLimit rl origin accessed;
          rs = checkRateLimit_calls rl os (snd r)
      in (fst r # fst rs, snd rs))"

section \<open>corsProxy.ts: headers, requests and withCORS\<close>

text \<open>
  A headers object is an association list in insertion order: assigning to a name that
  is present replaces its value in place, assigning to a new name appends it, \<open>delete\<close>
  removes it. \<open>Object.keys\<close> lists the names that are array indices first, in ascending
  numeric order, and then the other names in insertion order. A header value is truthy
  when the name is present with a non-empty value.
\<close>

type_synonym headers = "(string \<times> string) list"

definition array_index :: "string \<Rightarrow> nat option" where
  "array_index k =
     (if k \<noteq> [] \<and> list_all is_digit k \<and> show_nat (parse_nat k) = k \<and> parse_nat k < 4294967295
      then Some (parse_nat k) else None)"

definition object_keys :: "headers \<Rightarrow> string list" where
  "object_keys h =
     map show_nat (sort (List.map_filter array_index (map fst h))) @
     filter (\<lambda>k. array_index k = None) (map fst h)"

record request =
  http_method :: "string option"
  url :: "string option"
  headers :: headers

definition withCORS :: "headers \<Rightarrow> request \<Rightarrow> nat \<Rightarrow> headers \<times> request" where
  "withCORS hdrs req maxAge =
     (let h1 = AList.update ''access-control-allow-origin'' ''*'' hdrs;
          h2 = (if http_method req = Some ''OPTIONS'' \<and> maxAge \<noteq> 0
                then AList.update ''access-control-max-age'' (show_nat maxAge) h1 else h1);
          h3 = (case map_of (headers req) ''access-control-request-method'' of
                  None \<Rightarrow> h2
                | Some v \<Rightarrow> if v = [] then h2
                            else AList.update ''access-control-allow-methods'' v h2);
          r3 = (if truthy (map_of (headers req) ''access-control-request-method'')
                then req\<lparr> headers := AList.delete ''access-control-request-method'' (headers req) \<rparr>
                else req);
          h4 = (case map_of (headers r3) ''access-control-request-headers'' of
                  None \<Rightarrow> h3
                | Some v \<Rightarrow> if v = [] then h3
                            else AList.update ''access-control-allow-headers'' v h3);
          r4 = (if truthy (map_of (headers r3) ''access-control-request-headers'')
                then r3\<lparr> headers := AList.delete ''access-control-request-headers'' (headers r3) \<rparr>
                else r3)
      in (AList.update ''access-control-expose-headers'' (join '','' (object_keys h4)) h4, r4))"

section \<open>corsProxy.ts: the request handler\<close>

text \<open>
  \<open>CorsProxyOptions\<close> after the defaults are merged in. A rate-limit checker is any
  function from the origin to a message or nothing that may keep state of its own; the
  state is threaded through the handler. \<open>handleInitialRequest\<close> is read as the truth
  value it returns.
\<close>

datatype requireHeader_option = RequireNull | RequireString string | RequireArray "string list"

record 's CorsProxyOptions =
  handleInitialRequest :: "(request \<Rightarrow> URL option \<Rightarrow> bool) option"
  getProxyForUrl_option :: "(string \<Rightarrow> js_error + string option) option"
  maxRedirects :: int
  originBlacklist :: "string list"
  originWhitelist :: "string list"
  checkRateLimit_option :: "(string \<Rightarrow> 's \<Rightarrow> string option \<times> 's) option"
  redirectSameOrigin :: bool
  requireHeader :: requireHeader_option
  removeHeaders :: "string list"
  setHeaders :: headers
  corsMaxAge :: nat

record CorsState =
  location :: URL
  getProxyForUrl_state :: "(string \<Rightarrow> js_error + string option) option"
  proxyBaseUrl :: string
  maxRedirects_state :: int
  redirectCount :: "nat option"
  corsMaxAge_state :: nat

text \<open>
  \<open>requiredHeaderArray\<close> as \<open>getHandler\<close> computes it: \<open>requireHeader ?? []\<close>, a string
  wrapped into a one-element array, every name lower-cased. The test
  \<open>!requiredHeaderArray\<close> of \<open>hasRequiredHeaders\<close> is on an array, and every array is
  truthy in JavaScript, the empty one too.

  \<open>hasRequiredHeaders\<close> reads \<open>headers[headerName]\<close> on \<open>request.headers\<close>, an ordinary
  object that the HTTP parser fills with one own property for each header name received,
  in lower case. Its value is the text of the header, and for \<open>set-cookie\<close> the array
  of the values received, which is truthy whatever it holds. A name that is not an own
  property is looked up on \<open>Object.prototype\<close>, whose properties are functions and,
  under \<open>__proto__\<close>, the prototype object: all of them truthy.
\<close>

definition object_prototype_names :: "string list" where
  "object_prototype_names =
     [''constructor'', ''__proto__'', ''hasOwnProperty'', ''isPrototypeOf'',
      ''propertyIsEnumerable'', ''toLocaleString'', ''toString'', ''valueOf'',
      ''__defineGetter__'', ''__defineSetter__'', ''__lookupGetter__'', ''__lookupSetter__'']"

definition header_truthy :: "headers \<Rightarrow> string \<Rightarrow> bool" where
  "header_truthy hdrs headerName =
     (case map_of hdrs headerName of
        None \<Rightarrow> headerName \<in> set object_prototype_names
      | Some v \<Rightarrow> headerName = ''set-cookie'' \<or> v \<noteq> [])"

definition requiredHeaderArray :: "requireHeader_option \<Rightarrow> string list" where
  "requiredHeaderArray rh =
     map toLowerCase
       (case rh of
          RequireNull \<Rightarrow> []
        | RequireString s \<Rightarrow> [toLowerCase s]
        | RequireArray names \<Rightarrow> names)"

definition array_truthy :: "'a list \<Rightarrow> bool" where
  "array_truthy xs = True"

definition hasRequiredHeaders :: "requireHeader_option \<Rightarrow> headers \<Rightarrow> bool" where
  "hasRequiredHeaders rh hdrs =
     (if \<not> array_truthy (requiredHeaderArray rh) then True
      else list_ex (\<lambda>headerName. header_truthy hdrs headerName) (requiredHeaderArray rh))"

text \<open>The text that string concatenation gives for \<open>corsOptions.requireHeader\<close>.\<close>

definition requireHeader_text :: "requireHeader_option \<Rightarrow> string" where
  "requireHeader_text rh =
     (case rh of
        RequireNull \<Rightarrow> ''null''
      | RequireString s \<Rightarrow> s
      | RequireArray names \<Rightarrow> join '','' names)"

text \<open>\<^verbatim>\<open>/^\/https?:\/[^/]/i\<close> and \<^verbatim>\<open>/^\/https?:/\<close> on \<open>request.url ?? ""\<close>.\<close>

definition missing_slash :: "string \<Rightarrow> bool" where
  "missing_slash u =
     (starts_with ''/'' u \<and>
      (case scheme_prefix (drop 1 u) of
         None \<Rightarrow> False
       | Some (sch, r) \<Rightarrow>
           (case r of
              [] \<Rightarrow> False
            | c # r' \<Rightarrow> c = CHR ''/'' \<and> (case r' of [] \<Rightarrow> False | d # r'' \<Rightarrow> d \<noteq> CHR ''/''))))"

definition explicit_scheme :: "string \<Rightarrow> bool" where
  "explicit_scheme u = (starts_with ''/http:'' u \<or> starts_with ''/https:'' u)"

definition or_empty :: "string option \<Rightarrow> string" where
  "or_empty v = (case v of None \<Rightarrow> [] | Some s \<Rightarrow> s)"

text \<open>A value that is concatenated to a string: \<open>undefined\<close> prints as its name.\<close>

definition or_undefined :: "string option \<Rightarrow> string" where
  "or_undefined v = (case v of None \<Rightarrow> ''undefined'' | Some s \<Rightarrow> s)"

definition is_space :: "char \<Rightarrow> bool" where
  "is_space c = ((of_char c :: nat) \<in> {9, 10, 11, 12, 13, 32})"

definition port_number :: "URL \<Rightarrow> nat" where
  "port_number u = (case port u of None \<Rightarrow> 0 | Some p \<Rightarrow> p)"

text \<open>
  What a call of the handler does: it hands the request to \<open>handleInitialRequest\<close>,
  writes a response (status, reason phrase, headers, body), returns without writing
  anything, throws, or calls \<open>proxyRequest\<close> with the request and a fresh state.
\<close>

definition handledInitially :: "'s CorsProxyOptions \<Rightarrow> request \<Rightarrow> URL option \<Rightarrow> bool" where
  "handledInitially corsOptions request parsed =
     (case handleInitialRequest corsOptions of
        None \<Rightarrow> False
      | Some handle \<Rightarrow> handle request parsed)"

datatype outcome =
    Handled
  | Responded nat string headers string
  | Ignored
  | Thrown js_error
  | Proxied request CorsState

definition getHandler ::
  "env \<Rightarrow> 's CorsProxyOptions \<Rightarrow> request \<Rightarrow> 's \<Rightarrow> outcome \<times> 's" where
  "getHandler e corsOptions request0 st =
     (let corsHeaders = fst (withCORS [] request0 (corsMaxAge corsOptions));
          request = snd (withCORS [] request0 (corsMaxAge corsOptions))
      in case parseURL (map_option (drop 1) (url request)) of
           Inl err \<Rightarrow> (Thrown err, st)
         | Inr parsed \<Rightarrow>
             if handledInitially corsOptions request parsed then (Handled, st)
             else if http_method request = Some ''OPTIONS''
             then (Responded 200 ''OK'' corsHeaders [], st)
             else (case parsed of
                     None \<Rightarrow>
                       if missing_slash (or_empty (url request))
                       then (Responded 400 ''Missing slash'' corsHeaders
                               ''The URL is invalid: two slashes are needed after the http(s):.'', st)
                       else (Ignored, st)
                   | Some loc \<Rightarrow>
                       if port_number loc > 65535
                       then (Responded 400 ''Invalid port'' corsHeaders
                               (''Port number too large: '' @ port_str loc), st)
                       else if \<not> explicit_scheme (or_empty (url request)) \<and>
                               \<not> isValidHostName e (hostname loc)
                       then (Responded 404 ''Invalid host'' corsHeaders
                               (''Invalid host: '' @ hostname loc), st)
                       else if \<not> hasRequiredHeaders (requireHeader corsOptions) (headers request)
                       then (Responded 400 ''Header required'' corsHeaders
                               (''Missing required request header. Must specify one of: '' @
                                requireHeader_text (requireHeader corsOptions)), st)
                       else (let origin = or_empty (map_of (headers request) ''origin'') in
                             if origin \<in> set (originBlacklist corsOptions)
                             then (Responded 403 ''Forbidden'' corsHeaders
                                     (''The origin '' @ [CHR 0x22] @ origin @
                                      [CHR 0x22] @ '' was blacklisted by the operator of this proxy.''), st)
                             else if originWhitelist corsOptions \<noteq> [] \<and>
                                     origin \<notin> set (originWhitelist corsOptions)
                             then (Responded 403 ''Forbidden'' corsHeaders
                                     (''The origin '' @ [CHR 0x22] @ origin @
                                      [CHR 0x22] @ '' was not whitelisted by the operator of this proxy.''), st)
                             else (let checked =
                                         (case checkRateLimit_option corsOptions of
                                            None \<Rightarrow> (None, st)
                                          | Some check \<Rightarrow> check origin st);
                                       message = fst checked;
                                       st' = snd checked
                                   in if truthy message
                                      then (Responded 429 ''Too Many Requests'' corsHeaders
                                              (''The origin '' @ [CHR 0x22] @ origin @
                                               [CHR 0x22] @ '' has sent too many requests.'' @ [CHR 0x0A] @
                                               or_empty message), st')
                                      else if redirectSameOrigin corsOptions \<and> origin \<noteq> [] \<and>
                                              length origin < length (href loc) \<and>
                                              href loc ! length origin = CHR ''/'' \<and>
                                              starts_with origin (href loc)
                                      then (Responded 301 ''Please use a direct request''
                                              (AList.update ''location'' (href loc)
                                                (AList.update ''cache-control'' ''private''
                                                  (AList.update ''vary'' ''origin'' corsHeaders)))
                                              [], st')
                                      else (let isRequestedOverHttps =
                                                  starts_with ''https''
                                                    (dropWhile is_space
                                                      (or_undefined
                                                        (map_of (headers request) ''x-forwarded-proto'')));
                                                proxyBase =
                                                  (if isRequestedOverHttps then ''https://''
                                                   else ''http://'') @
                                                  or_undefined (map_of (headers request) ''host'');
                                                removed =
                                                  fold AList.delete (removeHeaders corsOptions)
                                                    (headers request);
                                                replaced =
                                                  fold (\<lambda>header.
                                                          AList.update header
                                                            (or_empty
                                                              (map_of (setHeaders corsOptions) header)))
                                                    (object_keys (setHeaders corsOptions)) removed
                                            in (Proxied (request\<lparr> headers := replaced \<rparr>)
                                                  \<lparr> location = loc,
                                                    getProxyForUrl_state =
                                                      getProxyForUrl_option corsOptions,
                                                    proxyBaseUrl = proxyBase,
                                                    maxRedirects_state = maxRedirects corsOptions,
                                                    redirectCount = None,
                                                    corsMaxAge_state = corsMaxAge corsOptions \<rparr>,
                                                st'))))))"

section \<open>corsProxy.ts: proxyRequest, onProxyResponse and handleRedirectStatus\<close>

text \<open>
  The proxy server object of http-proxy (version 1.11.1 in package.json) is an event
  emitter: \<open>proxy.on("proxyRes", f)\<close> adds \<open>f\<close> to the listeners of the event and never
  replaces one, \<open>proxy.web\<close> sends the request to the target of its options, and when
  the upstream answers the server emits \<open>proxyRes\<close>, calling every listener registered
  by then, in order of registration, on the one response object.

  \<open>Forwarding\<close> is what the forwarding of one inbound request reads and writes: its
  \<open>CorsState\<close> object, the request object, the headers set on the response object, the
  number of \<open>proxyRes\<close> listeners on the proxy server (each a closure over this
  \<open>CorsState\<close>), and the requests handed to \<open>proxy.web\<close> whose response is still to
  come, oldest first.
\<close>

record ProxyResponse =
  statusCode :: "nat option"
  response_headers :: headers

record ProxyOptions =
  target :: string
  options_headers :: headers
  auth :: "string option"
  toProxy :: bool

record Outbound =
  out_request :: request
  out_options :: ProxyOptions

record Forwarding =
  corsState :: CorsState
  req :: request
  res_headers :: headers
  proxyRes_listeners :: nat
  issued :: "Outbound list"

definition host_str :: "URL \<Rightarrow> string" where
  "host_str u = hostname u @ (case port u of None \<Rightarrow> [] | Some p \<Rightarrow> '':'' @ show_nat p)"

text \<open>\<open>proxy.on("proxyRes", ...)\<close> followed by \<open>proxy.web(request, response, proxyOptions)\<close>.\<close>

definition on_proxyRes_then_web :: "Forwarding \<Rightarrow> ProxyOptions \<Rightarrow> Forwarding" where
  "on_proxyRes_then_web w proxyOptions =
     w\<lparr> proxyRes_listeners := Suc (proxyRes_listeners w),
        issued := issued w @ [\<lparr> out_request = req w, out_options = proxyOptions \<rparr>] \<rparr>"

definition proxyRequest :: "env \<Rightarrow> Forwarding \<Rightarrow> js_error + Forwarding" where
  "proxyRequest e w =
     (let loc = location (corsState w);
          request1 = (req w)\<lparr> url := Some (path loc) \<rparr>;
          proxyOptions = \<lparr> target = href loc, options_headers = [(''host'', host_str loc)],
                           auth = None, toProxy = False \<rparr>
      in case (case getProxyForUrl_state (corsState w) of
                 None \<Rightarrow> Inr None
               | Some getProxy \<Rightarrow> getProxy (href loc)) of
           Inl err \<Rightarrow> Inl err
         | Inr proxyUrl \<Rightarrow>
             if truthy proxyUrl
             then (case new_URL (or_empty proxyUrl) of
                     None \<Rightarrow> Inl TypeError
                   | Some proxyThroughUrl \<Rightarrow>
                       Inr (on_proxyRes_then_web (w\<lparr> req := request1\<lparr> url := Some (href loc) \<rparr> \<rparr>)
                              \<lparr> target = href proxyThroughUrl,
                                options_headers =
                                  [(''Proxy-Authorization'',
                                    ''Basic '' @ base64 e (username proxyThroughUrl @ '':'' @
                                                          password proxyThroughUrl))],
                                auth = Some (username proxyThroughUrl @ '':'' @
                                             password proxyThroughUrl),
                                toProxy = True \<rparr>))
             else Inr (on_proxyRes_then_web (w\<lparr> req := request1 \<rparr>) proxyOptions))"

definition handleRedirectStatus ::
  "env \<Rightarrow> Forwarding \<Rightarrow> ProxyResponse \<Rightarrow> js_error + Forwarding \<times> ProxyResponse \<times> bool" where
  "handleRedirectStatus e w proxyRes =
     (let cs = corsState w in
      case (case map_of (response_headers proxyRes) ''location'' of
              None \<Rightarrow> Inr None
            | Some header \<Rightarrow>
                if header = [] then Inr None
                else (case new_URL_base header (href (location cs)) of
                        None \<Rightarrow> Inl TypeError
                      | Some resolved \<Rightarrow>
                          (case parseURL (Some (href resolved)) of
                             Inl err \<Rightarrow> Inl err
                           | Inr None \<Rightarrow> Inr None
                           | Inr (Some parsedLocation) \<Rightarrow>
                               Inr (Some (href resolved, parsedLocation))))) of
        Inl err \<Rightarrow> Inl err
      | Inr None \<Rightarrow> Inr (w, proxyRes, False)
      | Inr (Some (locationHeader, parsedLocation)) \<Rightarrow>
          if statusCode proxyRes = Some 301 \<or> statusCode proxyRes = Some 302 \<or>
             statusCode proxyRes = Some 303
          then (let count = (case redirectCount cs of None \<Rightarrow> 0 | Some c \<Rightarrow> c) + 1;
                    counted = cs\<lparr> redirectCount := Some count \<rparr>
                in if int count \<le> maxRedirects_state cs
                   then (case proxyRequest e
                                 (w\<lparr> res_headers :=
                                       AList.update (''X-CORS-Redirect-'' @ show_nat count)
                                         ((case statusCode proxyRes of
                                             None \<Rightarrow> ''undefined'' | Some s \<Rightarrow> show_nat s) @
                                          '' '' @ locationHeader)
                                         (res_headers w),
                                     req := (req w)\<lparr>
                                       http_method := Some ''GET'',
                                       headers :=
                                         AList.delete ''content-type''
                                           (AList.update ''content-length'' ''0''
                                              (headers (req w))) \<rparr>,
                                     corsState := counted\<lparr> location := parsedLocation \<rparr> \<rparr>) of
                           Inl err \<Rightarrow> Inl err
                         | Inr w' \<Rightarrow> Inr (w', proxyRes, False))
                   else Inr (w\<lparr> corsState := counted \<rparr>,
                             proxyRes\<lparr> response_headers :=
                               AList.update ''location'' (proxyBaseUrl cs @ ''/'' @ locationHeader)
                                 (response_headers proxyRes) \<rparr>,
                             False))
          else Inr (w,
                    proxyRes\<lparr> response_headers :=
                      AList.update ''location'' (proxyBaseUrl cs @ ''/'' @ locationHeader)
                        (response_headers proxyRes) \<rparr>,
                    False))"

definition onProxyResponse ::
  "env \<Rightarrow> Forwarding \<Rightarrow> ProxyResponse \<Rightarrow> js_error + Forwarding \<times> ProxyResponse \<times> bool" where
  "onProxyResponse e w proxyRes =
     (let cs = corsState w;
          w1 = (if redirectCount cs = None \<or> redirectCount cs = Some 0
                then w\<lparr> res_headers :=
                          AList.update ''x-request-url'' (href (location cs)) (res_headers w) \<rparr>
                else w)
      in if (case statusCode proxyRes of
               None \<Rightarrow> False
             | Some s \<Rightarrow> s \<noteq> 0 \<and> s \<in> set (REDIRECT_STATUSES e))
         then handleRedirectStatus e w1 proxyRes
         else (let annotated =
                     withCORS (AList.update ''x-final-url'' (href (location cs))
                                 (response_headers proxyRes))
                       (req w1) (corsMaxAge_state cs)
               in Inr (w1\<lparr> req := snd annotated \<rparr>,
                       proxyRes\<lparr> response_headers := fst annotated \<rparr>, True)))"

text \<open>
  One upstream response: the server emits \<open>proxyRes\<close> to the listeners registered when
  the response arrives; a listener added while the event is emitted is not called for
  it. \<open>deliver\<close> takes the oldest request still waiting, asks the upstream for its
  response and emits the event; it returns the state and the response object as the
  listeners leave them, an exception one of them throws, or \<open>None\<close> when no request is
  waiting.
\<close>

fun emit_proxyRes ::
  "env \<Rightarrow> nat \<Rightarrow> Forwarding \<Rightarrow> ProxyResponse \<Rightarrow> js_error + Forwarding \<times> ProxyResponse" where
  "emit_proxyRes e 0 w proxyRes = Inr (w, proxyRes)"
| "emit_proxyRes e (Suc n) w proxyRes =
     (case onProxyResponse e w proxyRes of
        Inl err \<Rightarrow> Inl err
      | Inr (w', proxyRes', handled) \<Rightarrow> emit_proxyRes e n w' proxyRes')"

definition deliver ::
  "env \<Rightarrow> (Outbound \<Rightarrow> ProxyResponse) \<Rightarrow> Forwarding \<Rightarrow>
     (js_error + Forwarding \<times> ProxyResponse) option" where
  "deliver e upstream w =
     (case issued w of
        [] \<Rightarrow> None
      | out # waiting \<Rightarrow>
          Some (emit_proxyRes e (proxyRes_listeners w) (w\<lparr> issued := waiting \<rparr>) (upstream out)))"

text \<open>
  The handler's last statement, \<open>proxyRequest(request, response, proxy, corsState)\<close>, on
  a proxy server that has no listener yet.
\<close>

definition start_forwarding :: "env \<Rightarrow> request \<Rightarrow> CorsState \<Rightarrow> js_error + Forwarding" where
  "start_forwarding e request cs =
     proxyRequest e \<lparr> corsState = cs, req = request, res_headers = [],
                       proxyRes_listeners = 0, issued = [] \<rparr>"

section \<open>corsProxy.ts and server.ts: the options in use\<close>

text \<open>
  \<open>defaultHandlerOptions\<close> of corsProxy.ts; its \<open>getProxyForUrl\<close> is the function of
  utils.ts over the environment the process was started in. \<open>server_options\<close> is the
  object that server.ts passes to \<open>createServer\<close>, merged over the defaults: the two
  origin lists come from the environment, and so does the rate limiter (absent when the
  variable is not set).
\<close>

definition defaultHandlerOptions :: "proxy_env \<Rightarrow> 's CorsProxyOptions" where
  "defaultHandlerOptions pe =
     \<lparr> handleInitialRequest = None, getProxyForUrl_option = Some (getProxyForUrl pe),
       maxRedirects = 5, originBlacklist = [], originWhitelist = [],
       checkRateLimit_option = None, redirectSameOrigin = False, requireHeader = RequireNull,
       removeHeaders = [], setHeaders = [], corsMaxAge = 0 \<rparr>"

definition server_options ::
  "proxy_env \<Rightarrow> string list \<Rightarrow> string list \<Rightarrow> RateLimiter option \<Rightarrow>
     accessedHosts CorsProxyOptions" where
  "server_options pe blacklist whitelist limiter =
     (defaultHandlerOptions pe)
       \<lparr> originBlacklist := blacklist, originWhitelist := whitelist,
         requireHeader := RequireArray [''origin'', ''x-requested-with''],
         checkRateLimit_option := map_option checkRateLimit limiter,
         removeHeaders := [''x-request-start'', ''x-request-id'', ''via'', ''connect-time'',
                           ''total-route-time''],
         redirectSameOrigin := True \<rparr>"

section \<open>Configurations, requests and upstreams used as examples\<close>

text \<open>
  A stand-in for the parameters of \<open>env\<close>: the top-level-domain test accepts the names
  that end in \<open>.com\<close> or \<open>.org\<close>, no name is an address literal, the redirect statuses
  are the five 3xx codes that carry a \<open>Location\<close>, and the base64 encoder is left as the
  identity.
\<close>

definition ends_with :: "string \<Rightarrow> string \<Rightarrow> bool" where
  "ends_with suffix s = starts_with (rev suffix) (rev s)"

definition example_env :: env where
  "example_env =
     \<lparr> TOP_LEVEL_DOMAIN_REGEX =
         (\<lambda>h. ends_with ''.com'' (toLowerCase h) \<or> ends_with ''.org'' (toLowerCase h)),
       REDIRECT_STATUSES = [301, 302, 303, 307, 308],
       isIPv4 = (\<lambda>h. False), isIPv6 = (\<lambda>h. False), base64 = (\<lambda>s. s) \<rparr>"

definition no_proxy_env :: proxy_env where
  "no_proxy_env = \<lparr> NO_PROXY = None, HTTP_PROXY = None, HTTPS_PROXY = None, ALL_PROXY = None \<rparr>"

definition wildcard_env :: proxy_env where
  "wildcard_env = \<lparr> NO_PROXY = Some ''*'', HTTP_PROXY = Some ''http://proxy.internal:3128'',
                    HTTPS_PROXY = None, ALL_PROXY = None \<rparr>"

definition bare_host_env :: proxy_env where
  "bare_host_env = \<lparr> NO_PROXY = Some ''localhost'', HTTP_PROXY = Some ''http://proxy.internal:3128'',
                     HTTPS_PROXY = None, ALL_PROXY = None \<rparr>"

definition blocking_options :: "accessedHosts CorsProxyOptions" where
  "blocking_options =
     server_options no_proxy_env [''http://evil.example.com''] [''http://evil.example.com''] None"

definition get_request :: "string \<Rightarrow> headers \<Rightarrow> request" where
  "get_request u hdrs = \<lparr> http_method = Some ''GET'', url = Some u, headers = hdrs \<rparr>"

definition u_example_com :: URL where
  "u_example_com =
     \<lparr> scheme = ''http'', username = [], password = [], host = Some ''example.com'',
       port = None, path = ''/'', query = None, fragment = None \<rparr>"

definition u_favicon :: URL where
  "u_favicon =
     \<lparr> scheme = ''http'', username = [], password = [], host = Some ''favicon.ico'',
       port = None, path = ''/'', query = None, fragment = None \<rparr>"

definition limiter_two :: RateLimiter where
  "limiter_two =
     \<lparr> maxRequestsPerPeriod = 2, periodInMinutes = 5,
       unlimitedPatternRegex = Some (\<lambda>h. toLowerCase h = ''example.com'') \<rparr>"

text \<open>
  An upstream that answers \<open>/a\<close> with a redirect to \<open>/b\<close>, \<open>/b\<close> with a redirect to \<open>/c\<close>
  and everything else with a page, and a proxy that follows one redirect.
\<close>

definition two_redirects :: "Outbound \<Rightarrow> ProxyResponse" where
  "two_redirects out =
     (if target (out_options out) = ''http://t.example.com/a''
      then \<lparr> statusCode = Some 302, response_headers = [(''location'', ''/b'')] \<rparr>
      else if target (out_options out) = ''http://t.example.com/b''
      then \<lparr> statusCode = Some 302, response_headers = [(''location'', ''/c'')] \<rparr>
      else \<lparr> statusCode = Some 200, response_headers = [(''content-type'', ''text/html'')] \<rparr>)"

definition one_redirect_options :: "accessedHosts CorsProxyOptions" where
  "one_redirect_options =
     (server_options no_proxy_env [] [] None)\<lparr> maxRedirects := 1 \<rparr>"

text \<open>
  Up to \<open>n\<close> upstream responses in a row, each delivered as \<open>deliver\<close> does it; the
  result is the state at the end and the response objects as the listeners left them.
\<close>

fun deliver_n ::
  "env \<Rightarrow> (Outbound \<Rightarrow> ProxyResponse) \<Rightarrow> nat \<Rightarrow> Forwarding \<Rightarrow>
     js_error + Forwarding \<times> ProxyResponse list" where
  "deliver_n e upstream 0 w = Inr (w, [])"
| "deliver_n e upstream (Suc n) w =
     (case deliver e upstream w of
        None \<Rightarrow> Inr (w, [])
      | Some (Inl err) \<Rightarrow> Inl err
      | Some (Inr (w', proxyRes)) \<Rightarrow>
          (case deliver_n e upstream n w' of
             Inl err \<Rightarrow> Inl err
           | Inr (w'', rest) \<Rightarrow> Inr (w'', proxyRes # rest)))"

definition two_hop_request :: request where
  "two_hop_request =
     get_request ''/http://t.example.com/a''
       [(''host'', ''proxy.example.org''), (''origin'', ''http://client.example.org'')]"

definition t_example :: "string \<Rightarrow> URL" where
  "t_example p =
     \<lparr> scheme = ''http'', username = [], password = [], host = Some ''t.example.com'',
       port = None, path = p, query = None, fragment = None \<rparr>"

definition through_proxy_c :: URL where
  "through_proxy_c =
     \<lparr> scheme = ''http'', username = [], password = [], host = Some ''proxy.example.org'',
       port = None, path = ''/http://t.example.com/c'', query = None, fragment = None \<rparr>"

definition two_hop_state :: CorsState where
  "two_hop_state =
     \<lparr> location = t_example ''/a'',
       getProxyForUrl_state = Some (getProxyForUrl no_proxy_env),
       proxyBaseUrl = ''http://proxy.example.org'', maxRedirects_state = 1,
       redirectCount = None, corsMaxAge_state = 0 \<rparr>"

section \<open>Evaluation on literals\<close>

lemma show_nat_digit: "n < 10 \<Longrightarrow> show_nat n = [digit_char n]"
  by (simp add: show_nat.simps)

lemma show_nat_step:
  "\<not> n < 10 \<Longrightarrow> show_nat n = show_nat (n div 10) @ [digit_char (n mod 10)]"
  by (subst show_nat.simps) simp

lemmas string_eval = toLowerCase_def lc_def is_alpha_def is_digit_def digit_val_def parse_nat_def
  digit_char_def show_nat_digit show_nat_step

lemmas url_eval = new_URL_def new_URL_base_def url_parse_def relative_URL_def parse_authority_def
  path_of_def split_tail_def unslash_def shorten_def is_double_dot_def is_single_dot_def
  parse_port_def split_host_port_def parse_host_def forbidden_host_char_def is_slash_def
  is_special_def default_port_def split_scheme_def is_scheme_char_def url_clean_def
  tab_or_newline_def c0_or_space_def href_def hostname_def port_str_def protocol_def Let_def

lemmas parseURL_eval = parseURL_def url_match_def match_rest_def port_group_def
  authority_seg_def scheme_prefix_def

lemmas handler_eval = getHandler_def withCORS_def object_keys_def array_index_def truthy_def
  handledInitially_def hasRequiredHeaders_def requiredHeaderArray_def array_truthy_def
  requireHeader_text_def missing_slash_def explicit_scheme_def or_empty_def or_undefined_def
  is_space_def port_number_def isValidHostName_def
  header_truthy_def object_prototype_names_def

lemmas options_eval = defaultHandlerOptions_def server_options_def example_env_def
  no_proxy_env_def get_request_def ends_with_def

lemma parseURL_example_com: "parseURL (Some ''http://example.com/'') = Inr (Some u_example_com)"
  by (simp add: parseURL_eval url_eval string_eval u_example_com_def)

lemma parseURL_favicon: "parseURL (Some ''favicon.ico'') = Inr (Some u_favicon)"
  by (simp add: parseURL_eval url_eval string_eval u_favicon_def)

lemma parseURL_port_70000: "parseURL (Some ''example.com:70000/'') = Inl TypeError"
  by (simp add: parseURL_eval url_eval string_eval)

lemma parseURL_443:
  "parseURL (Some ''example.com:443/a'') =
     Inr (Some \<lparr> scheme = ''https'', username = [], password = [], host = Some ''example.com'',
                 port = None, path = ''/a'', query = None, fragment = None \<rparr>)"
  by (simp add: parseURL_eval url_eval string_eval)

lemma parseURL_8080:
  "parseURL (Some ''example.com:8080/a'') =
     Inr (Some \<lparr> scheme = ''http'', username = [], password = [], host = Some ''example.com'',
                 port = Some 8080, path = ''/a'', query = None, fragment = None \<rparr>)"
  by (simp add: parseURL_eval url_eval string_eval)

lemma parseURL_http_443:
  "parseURL (Some ''http://example.com:443/a?b=1'') =
     Inr (Some \<lparr> scheme = ''http'', username = [], password = [], host = Some ''example.com'',
                 port = Some 443, path = ''/a'', query = Some ''b=1'', fragment = None \<rparr>)"
  by (simp add: parseURL_eval url_eval string_eval)

lemma parseURL_slashes_443:
  "parseURL (Some ''//example.com:443/a'') =
     Inr (Some \<lparr> scheme = ''https'', username = [], password = [], host = Some ''example.com'',
                 port = None, path = ''/a'', query = None, fragment = None \<rparr>)"
  by (simp add: parseURL_eval url_eval string_eval)

section \<open>The rate limiter\<close>

lemma checkRateLimit_result:
  "\<not> unlimited rl (strip_scheme origin) \<Longrightarrow>
   fst (checkRateLimit rl origin accessed) =
     (if stored accessed (strip_scheme origin) < maxRequestsPerPeriod rl then None
      else Some (rateLimitMessage rl))"
  by (auto simp: checkRateLimit_def stored_def Let_def split: option.splits)

lemma checkRateLimit_stored_same:
  "\<not> unlimited rl (strip_scheme origin) \<Longrightarrow>
   stored accessed (strip_scheme origin) \<le> maxRequestsPerPeriod rl \<Longrightarrow>
   stored (snd (checkRateLimit rl origin accessed)) (strip_scheme origin) =
     min (maxRequestsPerPeriod rl) (stored accessed (strip_scheme origin) + 1)"
  by (auto simp: checkRateLimit_def stored_def Let_def split: option.splits)

lemma checkRateLimit_stored_other:
  "strip_scheme origin \<noteq> h \<Longrightarrow>
   stored (snd (checkRateLimit rl origin accessed)) h = stored accessed h"
  by (auto simp: checkRateLimit_def stored_def Let_def split: option.splits)

lemma calls_stored:
  "\<not> unlimited rl h \<Longrightarrow> stored accessed h \<le> maxRequestsPerPeriod rl \<Longrightarrow>
   stored (snd (checkRateLimit_calls rl origins accessed)) h =
     min (maxRequestsPerPeriod rl)
       (stored accessed h + length (filter (\<lambda>x. strip_scheme x = h) origins))"
proof (induction origins arbitrary: accessed)
  case Nil
  then show ?case by simp
next
  case (Cons origin origins)
  show ?case
  proof (cases "strip_scheme origin = h")
    case True
    with Cons.prems have s: "stored (snd (checkRateLimit rl origin accessed)) h =
        min (maxRequestsPerPeriod rl) (stored accessed h + 1)"
      using checkRateLimit_stored_same [of rl origin accessed] by simp
    then have "stored (snd (checkRateLimit rl origin accessed)) h \<le> maxRequestsPerPeriod rl"
      by simp
    from Cons.IH [OF Cons.prems(1) this] s True show ?thesis
      by (simp add: Let_def min_def)
  next
    case False
    then have s: "stored (snd (checkRateLimit rl origin accessed)) h = stored accessed h"
      by (rule checkRateLimit_stored_other)
    with Cons.prems
    have "stored (snd (checkRateLimit rl origin accessed)) h \<le> maxRequestsPerPeriod rl"
      by simp
    from Cons.IH [OF Cons.prems(1) this] s False show ?thesis
      by (simp add: Let_def)
  qed
qed

lemma calls_nth:
  "i < length origins \<Longrightarrow>
   fst (checkRateLimit_calls rl origins accessed) ! i =
     fst (checkRateLimit rl (origins ! i)
            (snd (checkRateLimit_calls rl (take i origins) accessed)))"
proof (induction origins arbitrary: i accessed)
  case Nil
  then show ?case by simp
next
  case (Cons origin origins)
  then show ?case by (cases i) (simp_all add: Let_def)
qed

lemma rateLimitMessage_nonempty: "rateLimitMessage rl \<noteq> []"
  by (simp add: rateLimitMessage_def)

text \<open>
  C5. Within one period, that is from the empty mapping that the checker starts with and
  that the timer puts back, the \<open>i\<close>-th call of a sequence of \<open>checkRateLimit\<close> calls, for
  an origin whose host does not match the unlimited pattern, returns no message when
  fewer than \<open>maxRequestsPerPeriod\<close> earlier calls of the sequence were for the same host,
  and the rate-limit message otherwise; the message is not empty. So the first \<open>max\<close>
  calls for a host pass, every later one is refused, and after the reset the count starts
  from zero again. Calls for other hosts in between change nothing.
\<close>

theorem rate_limit_period:
  assumes "i < length origins"
    and "\<not> unlimited rl (strip_scheme (origins ! i))"
  shows "fst (checkRateLimit_calls rl origins (resetAccessedHosts accessed)) ! i =
           (if length (filter (\<lambda>x. strip_scheme x = strip_scheme (origins ! i)) (take i origins))
                 < maxRequestsPerPeriod rl
            then None else Some (rateLimitMessage rl))
         \<and> rateLimitMessage rl \<noteq> []
         \<and> resetAccessedHosts accessed = Map.empty"
proof -
  let ?h = "strip_scheme (origins ! i)"
  have e: "stored (resetAccessedHosts accessed) ?h = 0"
    by (simp add: stored_def resetAccessedHosts_def)
  then have "stored (resetAccessedHosts accessed) ?h \<le> maxRequestsPerPeriod rl" by simp
  from calls_stored [OF assms(2) this, of "take i origins"] e
  have "stored (snd (checkRateLimit_calls rl (take i origins) (resetAccessedHosts accessed))) ?h =
      min (maxRequestsPerPeriod rl)
        (length (filter (\<lambda>x. strip_scheme x = ?h) (take i origins)))"
    by simp
  with calls_nth [OF assms(1), of rl "resetAccessedHosts accessed"]
    checkRateLimit_result [OF assms(2)]
  show ?thesis by (simp add: rateLimitMessage_nonempty resetAccessedHosts_def)
qed

theorem rate_limit_period_witness:
  "2 < length [''http://other.com'', ''third.org'', ''https://other.com'', ''other.com''] \<and>
   \<not> unlimited limiter_two
        (strip_scheme ([''http://other.com'', ''third.org'', ''https://other.com'', ''other.com''] ! 3)) \<and>
   fst (checkRateLimit_calls limiter_two
          [''http://other.com'', ''third.org'', ''https://other.com'', ''other.com'']
          (resetAccessedHosts Map.empty)) ! 2 = None \<and>
   fst (checkRateLimit_calls limiter_two
          [''http://other.com'', ''third.org'', ''https://other.com'', ''other.com'']
          (resetAccessedHosts Map.empty)) ! 3 = Some (rateLimitMessage limiter_two)"
proof -
  let ?os = "[''http://other.com'', ''third.org'', ''https://other.com'', ''other.com'']"
  have h: "strip_scheme ''http://other.com'' = ''other.com''"
    "strip_scheme ''https://other.com'' = ''other.com''"
    "strip_scheme ''other.com'' = ''other.com''"
    "strip_scheme ''third.org'' = ''third.org''"
    by (simp_all add: strip_scheme_def is_word_or_hyphen_def is_alpha_def is_digit_def Let_def)
  have u: "\<not> unlimited limiter_two ''other.com''"
    by (simp add: unlimited_def limiter_two_def toLowerCase_def lc_def)
  have m: "maxRequestsPerPeriod limiter_two = 2"
    by (simp add: limiter_two_def)
  have p2: "2 < length ?os" and p3: "3 < length ?os" by simp_all
  have q2: "\<not> unlimited limiter_two (strip_scheme (?os ! 2))"
    and q3: "\<not> unlimited limiter_two (strip_scheme (?os ! 3))"
    using h u by simp_all
  have c2: "length (filter (\<lambda>x. strip_scheme x = strip_scheme (?os ! 2)) (take 2 ?os)) = 1"
    and c3: "length (filter (\<lambda>x. strip_scheme x = strip_scheme (?os ! 3)) (take 3 ?os)) = 2"
    using h by (simp_all add: numeral_2_eq_2 numeral_3_eq_3)
  from rate_limit_period [OF p2 q2, of Map.empty]
  have "fst (checkRateLimit_calls limiter_two ?os (resetAccessedHosts Map.empty)) ! 2 = None"
    unfolding c2 m by (simp add: resetAccessedHosts_def del: checkRateLimit_calls.simps)
  moreover from rate_limit_period [OF p3 q3, of Map.empty]
  have "fst (checkRateLimit_calls limiter_two ?os (resetAccessedHosts Map.empty)) ! 3 =
      Some (rateLimitMessage limiter_two)"
    unfolding c3 m by (simp add: resetAccessedHosts_def del: checkRateLimit_calls.simps)
  ultimately show ?thesis using p2 q3 by blast
qed

section \<open>parseURL: which scheme results\<close>

lemma lc_colon: "lc c = CHR '':'' \<Longrightarrow> c = CHR '':''"
  by (auto simp: lc_def split: if_splits)

lemma lc_alpha: "is_alpha (lc c) \<Longrightarrow> is_alpha c"
  by (auto simp: lc_def is_alpha_def split: if_splits)

lemma scheme_char_plain:
  "is_scheme_char c \<Longrightarrow> \<not> c0_or_space c \<and> \<not> tab_or_newline c \<and> c \<noteq> CHR '':''"
  by (auto simp: is_scheme_char_def is_alpha_def is_digit_def c0_or_space_def tab_or_newline_def)

lemma strip_end_keeps:
  assumes "q \<noteq> []" and "\<not> P (last q)"
  shows "rev (dropWhile P (rev (q @ t))) = q @ rev (dropWhile P (rev t))"
proof -
  from assms have "dropWhile P (rev q) = rev q"
    by (cases "rev q") (auto simp: last_rev [symmetric] hd_rev)
  then show ?thesis
    by (simp add: dropWhile_append)
qed

lemma colon_not_scheme_char: "\<not> is_scheme_char (CHR '':'')"
  by (simp add: is_scheme_char_def is_alpha_def is_digit_def)

lemma url_clean_keeps:
  assumes "q \<noteq> []" and "list_all is_scheme_char q"
  shows "\<exists>t'. url_clean (q @ '':'' @ t) = q @ '':'' @ t'"
proof -
  let ?p = "q @ '':''"
  have plain: "\<not> c0_or_space c \<and> \<not> tab_or_newline c" if "c \<in> set ?p" for c
  proof (cases "c \<in> set q")
    case True
    with assms(2) have "is_scheme_char c" by (simp add: list_all_iff)
    then show ?thesis by (simp add: scheme_char_plain)
  next
    case False
    with that have "c = CHR '':''" by simp
    then show ?thesis by (simp add: c0_or_space_def tab_or_newline_def)
  qed
  from assms(1) have "hd (?p @ t) \<in> set ?p" by (cases q) simp_all
  with plain have "\<not> c0_or_space (hd (?p @ t))" by blast
  moreover from assms(1) have "?p @ t \<noteq> []" by simp
  ultimately have front: "dropWhile c0_or_space (?p @ t) = ?p @ t"
    by (cases "?p @ t") simp_all
  have "last ?p \<in> set ?p" by simp
  with plain have "\<not> c0_or_space (last ?p)" by blast
  then have trail: "rev (dropWhile c0_or_space (rev (?p @ t))) =
      ?p @ rev (dropWhile c0_or_space (rev t))"
    by (intro strip_end_keeps) simp_all
  from plain have keep: "filter (\<lambda>c. \<not> tab_or_newline c) ?p = ?p"
    by (simp only: filter_id_conv) blast
  have "url_clean (?p @ t) =
      filter (\<lambda>c. \<not> tab_or_newline c) (?p @ rev (dropWhile c0_or_space (rev t)))"
    unfolding url_clean_def front trail ..
  also have "\<dots> = filter (\<lambda>c. \<not> tab_or_newline c) ?p @
      filter (\<lambda>c. \<not> tab_or_newline c) (rev (dropWhile c0_or_space (rev t)))"
    by (rule filter_append)
  also have "\<dots> = ?p @ filter (\<lambda>c. \<not> tab_or_newline c) (rev (dropWhile c0_or_space (rev t)))"
    by (simp only: keep)
  finally show ?thesis by (simp only: append_assoc) blast
qed

lemma split_scheme_prefix:
  assumes "q \<noteq> []" and "is_alpha (hd q)" and "list_all is_scheme_char q"
  shows "split_scheme (q @ '':'' @ t) = Some (toLowerCase q, t)"
proof -
  from assms(3) have tw: "takeWhile is_scheme_char (q @ '':'' @ t) = q"
    by (induction q) (simp_all add: colon_not_scheme_char)
  from assms(3) have dw: "dropWhile is_scheme_char (q @ '':'' @ t) = '':'' @ t"
    by (induction q) (simp_all add: colon_not_scheme_char)
  from assms(1,2) show ?thesis
    unfolding split_scheme_def tw dw by (cases q) simp_all
qed

lemma parse_authority_scheme: "parse_authority sch x = Some u \<Longrightarrow> scheme u = sch"
  by (auto simp: parse_authority_def Let_def split: option.splits if_splits)

lemma new_URL_scheme:
  assumes "new_URL (q @ '':'' @ t) = Some u"
    and "toLowerCase q = ''http'' \<or> toLowerCase q = ''https''"
  shows "scheme u = toLowerCase q"
proof -
  from assms(2) have "list_all is_alpha (toLowerCase q)"
    by (auto simp: is_alpha_def)
  then have alpha: "list_all is_alpha q"
    by (auto simp: toLowerCase_def list_all_iff dest: lc_alpha)
  then have sc: "list_all is_scheme_char q"
    by (auto simp: list_all_iff is_scheme_char_def)
  from assms(2) have ne: "q \<noteq> []" by (auto simp: toLowerCase_def)
  with alpha have hd: "is_alpha (hd q)" by (cases q) auto
  from url_clean_keeps [OF ne sc, of t] obtain t' where
    c: "url_clean (q @ '':'' @ t) = q @ '':'' @ t'" by blast
  have sp: "is_special (toLowerCase q)"
    using assms(2) by (auto simp: is_special_def default_port_def)
  from assms(1) show ?thesis
    unfolding new_URL_def url_parse_def Let_def c split_scheme_prefix [OF ne hd sc]
    using sp by (auto dest: parse_authority_scheme)
qed

lemma new_URL_protocol:
  assumes "new_URL (p @ t) = Some u"
    and "toLowerCase p = ''http:'' \<or> toLowerCase p = ''https:''"
  shows "protocol u = toLowerCase p"
proof -
  from assms(2) obtain q c where p: "p = q @ [c]"
    by (cases p rule: rev_cases) (auto simp: toLowerCase_def)
  with assms(2) have "lc c = CHR '':''" and q: "toLowerCase q = ''http'' \<or> toLowerCase q = ''https''"
    by (auto simp: toLowerCase_def)
  then have c: "c = CHR '':''" by (simp add: lc_colon)
  from assms(1) have "new_URL (q @ '':'' @ t) = Some u" by (simp add: p c)
  from new_URL_scheme [OF this q] show ?thesis
    by (simp add: protocol_def p c toLowerCase_def lc_def)
qed

lemma scheme_prefix_Some:
  "scheme_prefix s = Some (sch, r) \<Longrightarrow>
   s = sch @ r \<and> (toLowerCase sch = ''http:'' \<or> toLowerCase sch = ''https:'')"
  by (auto simp: scheme_prefix_def split: if_splits)

lemma url_match_scheme:
  "url_match s = Some (Some sch, m4) \<Longrightarrow> \<exists>r. scheme_prefix s = Some (sch, r)"
  by (auto simp: url_match_def match_rest_def split: option.splits if_splits)

lemma parseURL_protocol:
  assumes "parseURL (Some s) = Inr (Some u)" and "url_match s = Some (m1, m4)"
  shows "protocol u =
           (case m1 of
              Some sch \<Rightarrow> toLowerCase sch
            | None \<Rightarrow> if m4 = Some ''443'' then ''https:'' else ''http:'')"
proof (cases m1)
  case None
  let ?t = "(if starts_with ''//'' s then s else ''//'' @ s)"
  let ?p = "(if m4 = Some ''443'' then ''https:'' else ''http:'')"
  from assms None have "new_URL (?p @ ?t) = Some u"
    by (auto simp: parseURL_def Let_def split: if_splits option.splits)
  moreover have "toLowerCase ?p = ''http:'' \<or> toLowerCase ?p = ''https:''"
    by (simp add: toLowerCase_def lc_def)
  ultimately have "protocol u = toLowerCase ?p" by (rule new_URL_protocol)
  with None show ?thesis by (simp add: toLowerCase_def lc_def)
next
  case (Some sch)
  with assms(2) obtain r where "scheme_prefix s = Some (sch, r)"
    using url_match_scheme by blast
  then have s: "s = sch @ r"
    and l: "toLowerCase sch = ''http:'' \<or> toLowerCase sch = ''https:''"
    using scheme_prefix_Some by blast+
  from assms Some have "new_URL s = Some u"
    by (auto simp: parseURL_def Let_def split: if_splits option.splits)
  with s have "new_URL (sch @ r) = Some u" by simp
  from new_URL_protocol [OF this l] Some show ?thesis by simp
qed

lemma parseURL_explicit_scheme:
  assumes "parseURL (Some s) = Inr (Some u)" and "scheme_prefix s = Some (sch, r)"
  shows "protocol u = toLowerCase sch"
proof -
  from assms(1) obtain m1 m4 where m: "url_match s = Some (m1, m4)"
    by (auto simp: parseURL_def split: if_splits option.splits)
  from assms m have "m1 \<noteq> None"
    by (auto simp: parseURL_def split: if_splits)
  then obtain sch' where m1: "m1 = Some sch'" by auto
  with m obtain r' where "scheme_prefix s = Some (sch', r')"
    using url_match_scheme by blast
  with assms(2) have "sch' = sch" by simp
  with parseURL_protocol [OF assms(1) m] m1 show ?thesis by simp
qed

lemma scheme_prefix_http:
  assumes "toLowerCase (take 7 s) = ''http://''"
  shows "scheme_prefix s = Some (take 5 s, drop 5 s) \<and> toLowerCase (take 5 s) = ''http:''"
proof -
  from assms have "take 5 (toLowerCase (take 7 s)) = ''http:''"
    and "take 6 (toLowerCase (take 7 s)) = ''http:/''" by simp_all
  then have "toLowerCase (take 5 s) = ''http:''" and "toLowerCase (take 6 s) = ''http:/''"
    by (simp_all add: toLowerCase_def take_map)
  then show ?thesis by (simp add: scheme_prefix_def)
qed

lemma scheme_prefix_https:
  assumes "toLowerCase (take 8 s) = ''https://''"
  shows "scheme_prefix s = Some (take 6 s, drop 6 s) \<and> toLowerCase (take 6 s) = ''https:''"
proof -
  from assms have "take 6 (toLowerCase (take 8 s)) = ''https:''" by simp
  then have "toLowerCase (take 6 s) = ''https:''"
    by (simp add: toLowerCase_def take_map)
  then show ?thesis by (simp add: scheme_prefix_def)
qed

lemma port_group_digits:
  assumes "h \<noteq> []" and "list_all is_digit d" and "length d \<le> 5"
  shows "port_group (h @ '':'' @ d) = Some d"
proof -
  have "\<not> is_digit (CHR '':'')" by (simp add: is_digit_def)
  moreover have "takeWhile is_digit (rev d @ '':'' @ rev h) =
      rev d @ takeWhile is_digit ('':'' @ rev h)"
    by (rule takeWhile_append2) (use assms(2) in \<open>simp add: list_all_iff\<close>)
  ultimately have tw: "takeWhile is_digit (rev d @ '':'' @ rev h) = rev d"
    by simp
  have "rev (h @ '':'' @ d) = rev d @ '':'' @ rev h" by simp
  with tw assms(1,3) show ?thesis
    by (simp add: port_group_def Let_def)
qed

lemma authority_seg_shape:
  assumes "list_all (\<lambda>c. c \<noteq> CHR ''/'' \<and> c \<noteq> CHR ''?'') h"
    and "list_all is_digit d"
    and "r = [] \<or> hd r = CHR ''/'' \<or> hd r = CHR ''?''"
  shows "authority_seg (h @ '':'' @ d @ r) = h @ '':'' @ d"
proof -
  let ?P = "\<lambda>c. c \<noteq> CHR ''/'' \<and> c \<noteq> CHR ''?''"
  from assms(2) have "list_all ?P d"
    by (auto simp: list_all_iff is_digit_def)
  with assms(1) have all: "\<forall>c \<in> set (h @ '':'' @ d). ?P c"
    by (auto simp: list_all_iff)
  from assms(3) have "takeWhile ?P r = []" by (cases r) auto
  moreover have "takeWhile ?P ((h @ '':'' @ d) @ r) = (h @ '':'' @ d) @ takeWhile ?P r"
    by (rule takeWhile_append2) (use all in blast)
  ultimately have "takeWhile ?P ((h @ '':'' @ d) @ r) = h @ '':'' @ d"
    by simp
  then show ?thesis by (simp add: authority_seg_def)
qed

lemma port_group_443:
  "port_group seg = Some ''443'' \<longleftrightarrow> (\<exists>h. h \<noteq> [] \<and> seg = h @ '':443'')"
proof
  assume a: "port_group seg = Some ''443''"
  define d where "d = takeWhile is_digit (rev seg)"
  from a obtain h' where dr: "drop (length d) (rev seg) = CHR '':'' # h'"
    and h': "h' \<noteq> []" and d: "rev d = ''443''"
    unfolding port_group_def Let_def d_def [symmetric]
    by (auto split: list.splits if_splits)
  have "take (length d) (rev seg) = d"
    unfolding d_def by (rule takeWhile_eq_take [symmetric])
  with dr have "rev seg = d @ CHR '':'' # h'"
    by (metis append_take_drop_id)
  then have "rev (rev seg) = rev (d @ CHR '':'' # h')" by simp
  then have "seg = rev h' @ '':'' @ rev d" by simp
  with d have "seg = rev h' @ '':443''" by simp
  with h' show "\<exists>h. h \<noteq> [] \<and> seg = h @ '':443''" by auto
next
  assume "\<exists>h. h \<noteq> [] \<and> seg = h @ '':443''"
  then obtain h where h: "h \<noteq> []" and seg: "seg = h @ '':'' @ ''443''" by auto
  have "port_group (h @ '':'' @ ''443'') = Some ''443''"
    using h by (rule port_group_digits) (simp_all add: is_digit_def)
  with seg show "port_group seg = Some ''443''" by simp
qed

lemma authority_seg_443:
  "(\<exists>h. h \<noteq> [] \<and> authority_seg t = h @ '':443'') \<longleftrightarrow>
   (\<exists>h r. t = h @ '':443'' @ r \<and> h \<noteq> [] \<and>
          list_all (\<lambda>c. c \<noteq> CHR ''/'' \<and> c \<noteq> CHR ''?'') h \<and>
          (r = [] \<or> hd r = CHR ''/'' \<or> hd r = CHR ''?''))"
proof
  let ?P = "\<lambda>c. c \<noteq> CHR ''/'' \<and> c \<noteq> CHR ''?''"
  assume "\<exists>h. h \<noteq> [] \<and> authority_seg t = h @ '':443''"
  then obtain h where h: "h \<noteq> []" and seg: "takeWhile ?P t = h @ '':443''"
    by (auto simp: authority_seg_def)
  define r where "r = dropWhile ?P t"
  have "t = takeWhile ?P t @ r" by (simp add: r_def)
  with seg have t: "t = h @ '':443'' @ r" by simp
  have "?P c" if "c \<in> set h" for c
  proof -
    from that have "c \<in> set (h @ '':443'')" by simp
    then have "c \<in> set (takeWhile ?P t)" by (simp only: seg)
    then show ?thesis by (rule set_takeWhileD [THEN conjunct2])
  qed
  then have "list_all ?P h" unfolding list_all_iff by blast
  moreover have "r = [] \<or> hd r = CHR ''/'' \<or> hd r = CHR ''?''"
  proof (cases "r = []")
    case False
    then have "\<not> ?P (hd r)" unfolding r_def by (rule hd_dropWhile)
    then show ?thesis by blast
  qed simp
  ultimately show "\<exists>h r. t = h @ '':443'' @ r \<and> h \<noteq> [] \<and> list_all ?P h \<and>
      (r = [] \<or> hd r = CHR ''/'' \<or> hd r = CHR ''?'')"
    using t h by blast
next
  let ?P = "\<lambda>c. c \<noteq> CHR ''/'' \<and> c \<noteq> CHR ''?''"
  assume "\<exists>h r. t = h @ '':443'' @ r \<and> h \<noteq> [] \<and> list_all ?P h \<and>
      (r = [] \<or> hd r = CHR ''/'' \<or> hd r = CHR ''?'')"
  then obtain h r where t: "t = h @ '':'' @ ''443'' @ r" and h: "h \<noteq> []"
    and p: "list_all ?P h" and r: "r = [] \<or> hd r = CHR ''/'' \<or> hd r = CHR ''?''"
    by auto
  have "authority_seg (h @ '':'' @ ''443'' @ r) = h @ '':'' @ ''443''"
    using p _ r by (rule authority_seg_shape) (simp add: is_digit_def)
  with t h show "\<exists>h. h \<noteq> [] \<and> authority_seg t = h @ '':443''" by auto
qed

lemma starts_with_slashes: "starts_with ''//'' s \<longleftrightarrow> take 2 s = ''//''"
  by (cases s; cases "tl s") auto

lemma names_port_443:
  "(\<exists>h r. (s = h @ '':443'' @ r \<or> s = ''//'' @ h @ '':443'' @ r) \<and> h \<noteq> [] \<and>
          list_all (\<lambda>c. c \<noteq> CHR ''/'' \<and> c \<noteq> CHR ''?'') h \<and>
          (r = [] \<or> hd r = CHR ''/'' \<or> hd r = CHR ''?'')) \<longleftrightarrow>
   port_group (authority_seg (if starts_with ''//'' s then drop 2 s else s)) = Some ''443''"
proof (cases "starts_with ''//'' s")
  case True
  then have s: "s = ''//'' @ drop 2 s"
    by (metis append_take_drop_id starts_with_slashes)
  have no: "\<not> (s = h @ '':443'' @ r \<and> h \<noteq> [] \<and>
      list_all (\<lambda>c. c \<noteq> CHR ''/'' \<and> c \<noteq> CHR ''?'') h)" for h r
  proof
    assume a: "s = h @ '':443'' @ r \<and> h \<noteq> [] \<and>
      list_all (\<lambda>c. c \<noteq> CHR ''/'' \<and> c \<noteq> CHR ''?'') h"
    then obtain c h' where "h = c # h'" and "c \<noteq> CHR ''/''" by (cases h) auto
    with a have "hd s \<noteq> CHR ''/''" by simp
    moreover from s have "hd s = CHR ''/''" by (metis append_Cons list.sel(1))
    ultimately show False by simp
  qed
  have eq: "s = ''//'' @ h @ '':443'' @ r \<longleftrightarrow> drop 2 s = h @ '':443'' @ r" for h r
    using s by (metis same_append_eq)
  have "(\<exists>h r. (s = h @ '':443'' @ r \<or> s = ''//'' @ h @ '':443'' @ r) \<and> h \<noteq> [] \<and>
          list_all (\<lambda>c. c \<noteq> CHR ''/'' \<and> c \<noteq> CHR ''?'') h \<and>
          (r = [] \<or> hd r = CHR ''/'' \<or> hd r = CHR ''?'')) \<longleftrightarrow>
        (\<exists>h r. drop 2 s = h @ '':443'' @ r \<and> h \<noteq> [] \<and>
          list_all (\<lambda>c. c \<noteq> CHR ''/'' \<and> c \<noteq> CHR ''?'') h \<and>
          (r = [] \<or> hd r = CHR ''/'' \<or> hd r = CHR ''?''))"
    using no eq by blast
  then show ?thesis
    using True by (simp only: authority_seg_443 [symmetric] port_group_443 if_True)
next
  case False
  have no: "s \<noteq> ''//'' @ x" for x
  proof
    assume "s = ''//'' @ x"
    then have "take 2 s = ''//''" by simp
    with False show False by (simp add: starts_with_slashes)
  qed
  have "(\<exists>h r. (s = h @ '':443'' @ r \<or> s = ''//'' @ h @ '':443'' @ r) \<and> h \<noteq> [] \<and>
          list_all (\<lambda>c. c \<noteq> CHR ''/'' \<and> c \<noteq> CHR ''?'') h \<and>
          (r = [] \<or> hd r = CHR ''/'' \<or> hd r = CHR ''?'')) \<longleftrightarrow>
        (\<exists>h r. s = h @ '':443'' @ r \<and> h \<noteq> [] \<and>
          list_all (\<lambda>c. c \<noteq> CHR ''/'' \<and> c \<noteq> CHR ''?'') h \<and>
          (r = [] \<or> hd r = CHR ''/'' \<or> hd r = CHR ''?''))"
    using no by blast
  then show ?thesis
    using False by (simp only: authority_seg_443 [symmetric] port_group_443 if_False)
qed

lemma url_match_explicit:
  assumes "url_match s = Some (Some sch, m4)"
  shows "toLowerCase (take 7 s) = ''http://'' \<or> toLowerCase (take 8 s) = ''https://''"
proof -
  from assms obtain r where sp: "scheme_prefix s = Some (sch, r)" and sl: "starts_with ''//'' r"
    by (auto simp: url_match_def match_rest_def split: option.splits if_splits)
  from sl have r: "take 2 r = ''//''" by (simp add: starts_with_slashes)
  from sp consider (https) "toLowerCase (take 6 s) = ''https:''" "r = drop 6 s"
    | (http) "toLowerCase (take 5 s) = ''http:''" "r = drop 5 s"
    by (auto simp: scheme_prefix_def split: if_splits)
  then show ?thesis
  proof cases
    case https
    have "take 8 s = take 6 s @ take 2 (drop 6 s)"
      using take_add [of 6 2 s] by simp
    with https r have "toLowerCase (take 8 s) = ''https:'' @ toLowerCase ''//''"
      by (simp add: toLowerCase_def)
    then show ?thesis by (simp add: toLowerCase_def lc_def)
  next
    case http
    have "take 7 s = take 5 s @ take 2 (drop 5 s)"
      using take_add [of 5 2 s] by simp
    with http r have "toLowerCase (take 7 s) = ''http:'' @ toLowerCase ''//''"
      by (simp add: toLowerCase_def)
    then show ?thesis by (simp add: toLowerCase_def lc_def)
  qed
qed

lemma url_match_inferred:
  assumes "url_match s = Some (None, m4)" and "scheme_prefix s = None"
  shows "m4 = port_group (authority_seg (if starts_with ''//'' s then drop 2 s else s))"
proof (cases "starts_with ''//'' s")
  case True
  then have "authority_seg s = []"
    by (cases s) (auto simp: authority_seg_def)
  with assms True show ?thesis
    by (auto simp: url_match_def match_rest_def split: option.splits if_splits)
next
  case False
  with assms show ?thesis
    by (auto simp: url_match_def match_rest_def split: option.splits if_splits)
qed

text \<open>
  C7, as amended. Whenever \<open>parseURL\<close> yields a target: an input that starts with
  \<open>http://\<close> (in any letter case) yields the protocol \<open>http:\<close> and one that starts with
  \<open>https://\<close> yields \<open>https:\<close>, whatever port it names, so the explicit scheme wins
  over the inference from the port. Any other input yields \<open>https:\<close> exactly when its
  text after an optional leading \<open>//\<close> and up to the first \<open>/\<close> or \<open>?\<close> (or to the
  end) is a non-empty host followed by \<open>:443\<close>, and \<open>http:\<close> in every other case: for
  any other port, and also when \<open>:443\<close> is followed by something else than \<open>/\<close>, \<open>?\<close>
  or the end of the input.
\<close>

theorem parseURL_scheme_inference:
  assumes "parseURL (Some s) = Inr (Some u)"
  shows "(toLowerCase (take 7 s) = ''http://'' \<longrightarrow> protocol u = ''http:'') \<and>
         (toLowerCase (take 8 s) = ''https://'' \<longrightarrow> protocol u = ''https:'') \<and>
         (toLowerCase (take 7 s) \<noteq> ''http://'' \<and> toLowerCase (take 8 s) \<noteq> ''https://'' \<longrightarrow>
          protocol u =
            (if \<exists>h r. (s = h @ '':443'' @ r \<or> s = ''//'' @ h @ '':443'' @ r) \<and> h \<noteq> [] \<and>
                       list_all (\<lambda>c. c \<noteq> CHR ''/'' \<and> c \<noteq> CHR ''?'') h \<and>
                       (r = [] \<or> hd r = CHR ''/'' \<or> hd r = CHR ''?'')
             then ''https:'' else ''http:''))"
proof (intro conjI impI)
  assume "toLowerCase (take 7 s) = ''http://''"
  then have "scheme_prefix s = Some (take 5 s, drop 5 s)" and "toLowerCase (take 5 s) = ''http:''"
    using scheme_prefix_http by blast+
  with parseURL_explicit_scheme [OF assms] show "protocol u = ''http:''" by simp
next
  assume "toLowerCase (take 8 s) = ''https://''"
  then have "scheme_prefix s = Some (take 6 s, drop 6 s)" and "toLowerCase (take 6 s) = ''https:''"
    using scheme_prefix_https by blast+
  with parseURL_explicit_scheme [OF assms] show "protocol u = ''https:''" by simp
next
  assume no: "toLowerCase (take 7 s) \<noteq> ''http://'' \<and> toLowerCase (take 8 s) \<noteq> ''https://''"
  from assms obtain m1 m4 where m: "url_match s = Some (m1, m4)"
    by (auto simp: parseURL_def split: if_splits option.splits)
  from m no have m1: "m1 = None"
    using url_match_explicit by (cases m1) blast+
  with assms m have sp: "scheme_prefix s = None"
    by (cases "scheme_prefix s") (auto simp: parseURL_def split: if_splits)
  from m m1 sp have "m4 = port_group (authority_seg (if starts_with ''//'' s then drop 2 s else s))"
    using url_match_inferred by blast
  with parseURL_protocol [OF assms m] m1
  show "protocol u =
      (if \<exists>h r. (s = h @ '':443'' @ r \<or> s = ''//'' @ h @ '':443'' @ r) \<and> h \<noteq> [] \<and>
                 list_all (\<lambda>c. c \<noteq> CHR ''/'' \<and> c \<noteq> CHR ''?'') h \<and>
                 (r = [] \<or> hd r = CHR ''/'' \<or> hd r = CHR ''?'')
       then ''https:'' else ''http:'')"
    by (simp only: names_port_443) simp
qed

theorem parseURL_scheme_inference_witness:
  "parseURL (Some ''example.com:443/a'') =
     Inr (Some \<lparr> scheme = ''https'', username = [], password = [], host = Some ''example.com'',
                 port = None, path = ''/a'', query = None, fragment = None \<rparr>) \<and>
   parseURL (Some ''//example.com:443/a'') =
     Inr (Some \<lparr> scheme = ''https'', username = [], password = [], host = Some ''example.com'',
                 port = None, path = ''/a'', query = None, fragment = None \<rparr>) \<and>
   protocol \<lparr> scheme = ''https'', username = [], password = [], host = Some ''example.com'',
              port = None, path = ''/a'', query = None, fragment = None \<rparr> = ''https:'' \<and>
   parseURL (Some ''example.com:8080/a'') =
     Inr (Some \<lparr> scheme = ''http'', username = [], password = [], host = Some ''example.com'',
                 port = Some 8080, path = ''/a'', query = None, fragment = None \<rparr>) \<and>
   protocol \<lparr> scheme = ''http'', username = [], password = [], host = Some ''example.com'',
              port = Some 8080, path = ''/a'', query = None, fragment = None \<rparr> = ''http:'' \<and>
   parseURL (Some ''http://example.com:443/a?b=1'') =
     Inr (Some \<lparr> scheme = ''http'', username = [], password = [], host = Some ''example.com'',
                 port = Some 443, path = ''/a'', query = Some ''b=1'', fragment = None \<rparr>) \<and>
   protocol \<lparr> scheme = ''http'', username = [], password = [], host = Some ''example.com'',
              port = Some 443, path = ''/a'', query = Some ''b=1'', fragment = None \<rparr> = ''http:''"
proof -
  let ?U1 = "\<lparr> scheme = ''https'', username = [], password = [], host = Some ''example.com'',
                 port = None, path = ''/a'', query = None, fragment = None \<rparr>"
  let ?U2 = "\<lparr> scheme = ''http'', username = [], password = [], host = Some ''example.com'',
                 port = Some 8080, path = ''/a'', query = None, fragment = None \<rparr>"
  let ?U3 = "\<lparr> scheme = ''http'', username = [], password = [], host = Some ''example.com'',
                 port = Some 443, path = ''/a'', query = Some ''b=1'', fragment = None \<rparr>"
  let ?names = "\<lambda>s. \<exists>h r. (s = h @ '':443'' @ r \<or> s = ''//'' @ h @ '':443'' @ r) \<and> h \<noteq> [] \<and>
      list_all (\<lambda>c. c \<noteq> CHR ''/'' \<and> c \<noteq> CHR ''?'') h \<and>
      (r = [] \<or> hd r = CHR ''/'' \<or> hd r = CHR ''?'')"
  have a1: "toLowerCase (take 7 ''example.com:443/a'') \<noteq> ''http://'' \<and>
      toLowerCase (take 8 ''example.com:443/a'') \<noteq> ''https://''"
    by (simp add: string_eval)
  have e1: "?names ''example.com:443/a''"
    unfolding names_port_443
    by (simp add: port_group_def authority_seg_def is_digit_def Let_def)
  from parseURL_scheme_inference [OF parseURL_443] a1
  have "protocol ?U1 = (if ?names ''example.com:443/a'' then ''https:'' else ''http:'')"
    by blast
  with e1 have p1: "protocol ?U1 = ''https:''" by (simp only: if_True)
  have a1': "toLowerCase (take 7 ''//example.com:443/a'') \<noteq> ''http://'' \<and>
      toLowerCase (take 8 ''//example.com:443/a'') \<noteq> ''https://''"
    by (simp add: string_eval)
  have e1': "?names ''//example.com:443/a''"
    unfolding names_port_443
    by (simp add: port_group_def authority_seg_def is_digit_def Let_def)
  from parseURL_scheme_inference [OF parseURL_slashes_443] a1'
  have "protocol ?U1 = (if ?names ''//example.com:443/a'' then ''https:'' else ''http:'')"
    by blast
  with e1' have p1': "protocol ?U1 = ''https:''" by (simp only: if_True)
  have a2: "toLowerCase (take 7 ''example.com:8080/a'') \<noteq> ''http://'' \<and>
      toLowerCase (take 8 ''example.com:8080/a'') \<noteq> ''https://''"
    by (simp add: string_eval)
  have e2: "\<not> ?names ''example.com:8080/a''"
    unfolding names_port_443
    by (simp add: port_group_def authority_seg_def is_digit_def Let_def)
  from parseURL_scheme_inference [OF parseURL_8080] a2
  have "protocol ?U2 = (if ?names ''example.com:8080/a'' then ''https:'' else ''http:'')"
    by blast
  with e2 have p2: "protocol ?U2 = ''http:''" by (simp only: if_False)
  have a3: "toLowerCase (take 7 ''http://example.com:443/a?b=1'') = ''http://''"
    by (simp add: string_eval)
  from parseURL_scheme_inference [OF parseURL_http_443] a3
  have p3: "protocol ?U3 = ''http:''" by blast
  from p1 p1' p2 p3 parseURL_443 parseURL_slashes_443 parseURL_8080 parseURL_http_443
  show ?thesis by blast
qed

theorem parseURL_scheme_inference_counterexample:
  "parseURL (Some ''example.com:443#frag'') =
     Inr (Some \<lparr> scheme = ''http'', username = [], password = [], host = Some ''example.com'',
                 port = Some 443, path = ''/'', query = None, fragment = Some ''frag'' \<rparr>) \<and>
   protocol \<lparr> scheme = ''http'', username = [], password = [], host = Some ''example.com'',
              port = Some 443, path = ''/'', query = None, fragment = Some ''frag'' \<rparr> = ''http:''"
  by (simp add: parseURL_eval url_eval string_eval)

section \<open>The request handler\<close>

lemma withCORS_url [simp]: "url (snd (withCORS hdrs r a)) = url r"
  by (simp add: withCORS_def Let_def)

lemma withCORS_method [simp]: "http_method (snd (withCORS hdrs r a)) = http_method r"
  by (simp add: withCORS_def Let_def)

lemma withCORS_request_headers:
  "k \<noteq> ''access-control-request-method'' \<Longrightarrow> k \<noteq> ''access-control-request-headers'' \<Longrightarrow>
   map_of (headers (snd (withCORS hdrs r a))) k = map_of (headers r) k"
  by (simp add: withCORS_def Let_def)

lemma withCORS_request_headers_le:
  "map_of (headers (snd (withCORS hdrs r a))) k = Some v \<Longrightarrow> map_of (headers r) k = Some v"
  by (auto simp: withCORS_def Let_def AList.delete_conv' split: if_splits)

lemma withCORS_allow_origin:
  "map_of (fst (withCORS hdrs r a)) ''access-control-allow-origin'' = Some ''*''"
  by (simp add: withCORS_def Let_def AList.update_conv' split: option.splits)

lemma withCORS_names:
  "fst ` set (fst (withCORS [] r a)) \<subseteq>
     {''access-control-allow-origin'', ''access-control-max-age'', ''access-control-allow-methods'',
      ''access-control-allow-headers'', ''access-control-expose-headers''}"
  by (auto simp: withCORS_def Let_def AList.dom_update split: option.splits if_splits)

lemma map_of_names: "map_of al k = Some v \<Longrightarrow> k \<in> fst ` set al"
  by (metis domI dom_map_of_conv_image_fst)

lemma parse_authority_port:
  "parse_authority sch s = Some u \<Longrightarrow> port_number u \<le> 65535"
  by (auto simp: parse_authority_def parse_port_def port_number_def Let_def
      split: option.splits if_splits)

lemma new_URL_port: "new_URL s = Some u \<Longrightarrow> port_number u \<le> 65535"
  by (auto simp: new_URL_def url_parse_def Let_def port_number_def
      split: option.splits if_splits prod.splits dest: parse_authority_port)

lemma parseURL_port: "parseURL r = Inr (Some u) \<Longrightarrow> port_number u \<le> 65535"
  by (auto simp: parseURL_def Let_def split: option.splits if_splits prod.splits
      dest: new_URL_port)

lemma withCORS_kept:
  assumes "map_of (fst (withCORS [] r a)) k = Some v"
  shows "map_of (AList.update ''location'' l
           (AList.update ''cache-control'' c
             (AList.update ''vary'' o' (fst (withCORS [] r a))))) k = Some v"
proof -
  from assms have "k \<in> fst ` set (fst (withCORS [] r a))" by (rule map_of_names)
  with withCORS_names [of r a]
  have "k \<noteq> ''location''" "k \<noteq> ''cache-control''" "k \<noteq> ''vary''" by auto
  with assms show ?thesis by (simp add: AList.update_conv')
qed

text \<open>
  C10. Every response that the handler writes itself (the 200 for \<open>OPTIONS\<close>, the 400
  for a missing slash, an invalid port or a missing required header, the 404 for an
  invalid host, the two 403 for the origin lists, the 429 of the rate limiter and the 301
  for a same-origin request) carries every header that \<open>withCORS\<close> computed at the
  entry of the handler, with the value computed there, and in particular
  \<open>access-control-allow-origin: *\<close>.
\<close>

theorem responses_carry_cors_headers:
  assumes "getHandler e corsOptions request st = (Responded status reason hdrs body, st')"
  shows "map_of hdrs ''access-control-allow-origin'' = Some ''*'' \<and>
         (\<forall>k v. map_of (fst (withCORS [] request (corsMaxAge corsOptions))) k = Some v \<longrightarrow>
                map_of hdrs k = Some v)"
proof -
  let ?c = "fst (withCORS [] request (corsMaxAge corsOptions))"
  from assms have "hdrs = ?c \<or>
      (\<exists>l. hdrs = AList.update ''location'' l
           (AList.update ''cache-control'' ''private'' (AList.update ''vary'' ''origin'' ?c)))"
    by (auto simp: getHandler_def Let_def split: sum.splits option.splits if_splits)
  then show ?thesis
  proof
    assume "hdrs = ?c"
    then show ?thesis by (simp add: withCORS_allow_origin)
  next
    assume "\<exists>l. hdrs = AList.update ''location'' l
           (AList.update ''cache-control'' ''private'' (AList.update ''vary'' ''origin'' ?c))"
    then obtain l where h: "hdrs = AList.update ''location'' l
           (AList.update ''cache-control'' ''private'' (AList.update ''vary'' ''origin'' ?c))" ..
    show ?thesis
      unfolding h using withCORS_kept [of request "corsMaxAge corsOptions"]
      by (simp add: withCORS_allow_origin)
  qed
qed

theorem responses_carry_cors_headers_witness:
  "getHandler example_env one_redirect_options
     (get_request ''/http://example.com/''
        [(''host'', ''proxy.example.org''), (''origin'', ''http://example.com'')]) Map.empty =
     (Responded 301 ''Please use a direct request''
        [(''access-control-allow-origin'', ''*''),
         (''access-control-expose-headers'', ''access-control-allow-origin''),
         (''vary'', ''origin''), (''cache-control'', ''private''),
         (''location'', ''http://example.com/'')] [], Map.empty) \<and>
   map_of [(''access-control-allow-origin'', ''*''),
           (''access-control-expose-headers'', ''access-control-allow-origin''),
           (''vary'', ''origin''), (''cache-control'', ''private''),
           (''location'', ''http://example.com/'')] ''access-control-allow-origin'' = Some ''*''"
proof -
  have "getHandler example_env one_redirect_options
     (get_request ''/http://example.com/''
        [(''host'', ''proxy.example.org''), (''origin'', ''http://example.com'')]) Map.empty =
     (Responded 301 ''Please use a direct request''
        [(''access-control-allow-origin'', ''*''),
         (''access-control-expose-headers'', ''access-control-allow-origin''),
         (''vary'', ''origin''), (''cache-control'', ''private''),
         (''location'', ''http://example.com/'')] [], Map.empty)"
    by (simp add: handler_eval options_eval one_redirect_options_def string_eval url_eval parseURL_example_com
        u_example_com_def)
  with responses_carry_cors_headers [OF this] show ?thesis by blast
qed

lemma header_truthy_withCORS:
  assumes "header_truthy (headers (snd (withCORS hdrs r a))) k"
    and "k \<notin> set object_prototype_names"
  shows "\<exists>v. map_of (headers r) k = Some v \<and> (k = ''set-cookie'' \<or> v \<noteq> [])"
proof (cases "map_of (headers (snd (withCORS hdrs r a))) k")
  case None
  with assms show ?thesis by (simp add: header_truthy_def)
next
  case (Some v)
  then have "map_of (headers r) k = Some v" by (rule withCORS_request_headers_le)
  with assms(1) Some show ?thesis by (simp add: header_truthy_def)
qed

lemma lc_not_upper: "lc c \<notin> set ''ABCDEFGHIJKLMNOPQRSTUVWXYZ''"
  by (simp add: lc_def)

lemma toLowerCase_not_upper:
  assumes "c \<in> set (toLowerCase s)"
  shows "c \<notin> set ''ABCDEFGHIJKLMNOPQRSTUVWXYZ''"
proof -
  from assms obtain d where c: "c = lc d"
    unfolding toLowerCase_def by (auto simp only: set_map)
  show ?thesis unfolding c by (rule lc_not_upper)
qed

lemma lower_case_prototype_names:
  assumes "n \<in> set (requiredHeaderArray rh)" and "n \<in> set object_prototype_names"
  shows "n = ''constructor'' \<or> n = ''__proto__''"
proof -
  from assms(1) obtain m where n: "n = toLowerCase m"
    by (auto simp: requiredHeaderArray_def)
  have up: "c \<in> set ''ABCDEFGHIJKLMNOPQRSTUVWXYZ'' \<Longrightarrow> c \<notin> set n" for c
    unfolding n using toLowerCase_not_upper by blast
  have "CHR ''O'' \<notin> set n" by (rule up) simp
  moreover have "CHR ''P'' \<notin> set n" by (rule up) simp
  moreover have "CHR ''E'' \<notin> set n" by (rule up) simp
  moreover have "CHR ''S'' \<notin> set n" by (rule up) simp
  moreover have "CHR ''G'' \<notin> set n" by (rule up) simp
  moreover have "CHR ''L'' \<notin> set n" by (rule up) simp
  moreover have "CHR ''O'' \<in> set ''hasOwnProperty''" "CHR ''P'' \<in> set ''isPrototypeOf''"
    "CHR ''E'' \<in> set ''propertyIsEnumerable''" "CHR ''L'' \<in> set ''toLocaleString''"
    "CHR ''S'' \<in> set ''toString''" "CHR ''O'' \<in> set ''valueOf''"
    "CHR ''G'' \<in> set ''__defineGetter__''" "CHR ''S'' \<in> set ''__defineSetter__''"
    "CHR ''G'' \<in> set ''__lookupGetter__''" "CHR ''S'' \<in> set ''__lookupSetter__''"
    by simp_all
  moreover from assms(2) have "n = ''constructor'' \<or> n = ''__proto__'' \<or> n = ''hasOwnProperty'' \<or>
      n = ''isPrototypeOf'' \<or> n = ''propertyIsEnumerable'' \<or> n = ''toLocaleString'' \<or>
      n = ''toString'' \<or> n = ''valueOf'' \<or> n = ''__defineGetter__'' \<or>
      n = ''__defineSetter__'' \<or> n = ''__lookupGetter__'' \<or> n = ''__lookupSetter__''"
    by (simp add: object_prototype_names_def)
  ultimately show ?thesis by blast
qed

lemma not_hasRequiredHeaders:
  assumes "''constructor'' \<notin> set (requiredHeaderArray rh)"
    and "''__proto__'' \<notin> set (requiredHeaderArray rh)"
    and "list_all (\<lambda>headerName. case map_of (headers r) headerName of
                    None \<Rightarrow> True | Some v \<Rightarrow> v = [] \<and> headerName \<noteq> ''set-cookie'')
           (requiredHeaderArray rh)"
  shows "\<not> hasRequiredHeaders rh (headers (snd (withCORS hdrs r a)))"
proof
  assume "hasRequiredHeaders rh (headers (snd (withCORS hdrs r a)))"
  then obtain n where n: "n \<in> set (requiredHeaderArray rh)"
    and t: "header_truthy (headers (snd (withCORS hdrs r a))) n"
    by (auto simp: hasRequiredHeaders_def array_truthy_def list_ex_iff)
  from n assms(1,2) have "n \<notin> set object_prototype_names"
    using lower_case_prototype_names by blast
  with t obtain v where "map_of (headers r) n = Some v" and "n = ''set-cookie'' \<or> v \<noteq> []"
    using header_truthy_withCORS by blast
  moreover from n assms(3)
  have "case map_of (headers r) n of None \<Rightarrow> True | Some v \<Rightarrow> v = [] \<and> n \<noteq> ''set-cookie''"
    by (simp add: list_all_iff)
  ultimately show False by auto
qed

text \<open>
  C1, as amended. A request that is not an \<open>OPTIONS\<close> request, that
  \<open>handleInitialRequest\<close> does not take, whose path resolves to a target, and whose
  target passes the host check (the path starts with \<open>/http:\<close> or \<open>/https:\<close>, or the
  host name is valid) is answered with status 400, \<open>Header required\<close>, when the list of
  required header names is not empty, names neither \<open>constructor\<close> nor \<open>__proto__\<close>
  (the two lower-case names that every object inherits), and the request carries none of
  the lower-cased names, or carries them with an empty value only (for \<open>set-cookie\<close>,
  whose value is an array: does not carry it).
\<close>

theorem missing_required_header_rejected:
  assumes "http_method request \<noteq> Some ''OPTIONS''"
    and "parseURL (map_option (drop 1) (url request)) = Inr (Some loc)"
    and "\<not> handledInitially corsOptions (snd (withCORS [] request (corsMaxAge corsOptions))) (Some loc)"
    and "explicit_scheme (or_empty (url request)) \<or> isValidHostName e (hostname loc)"
    and "requiredHeaderArray (requireHeader corsOptions) \<noteq> []"
    and "''constructor'' \<notin> set (requiredHeaderArray (requireHeader corsOptions))"
    and "''__proto__'' \<notin> set (requiredHeaderArray (requireHeader corsOptions))"
    and "list_all (\<lambda>headerName. case map_of (headers request) headerName of
                    None \<Rightarrow> True | Some v \<Rightarrow> v = [] \<and> headerName \<noteq> ''set-cookie'')
           (requiredHeaderArray (requireHeader corsOptions))"
  shows "getHandler e corsOptions request st =
           (Responded 400 ''Header required''
              (fst (withCORS [] request (corsMaxAge corsOptions)))
              (''Missing required request header. Must specify one of: '' @
               requireHeader_text (requireHeader corsOptions)), st)"
proof -
  from assms(2) have "\<not> 65535 < port_number loc"
    by (simp add: not_less parseURL_port)
  with assms(1-4) not_hasRequiredHeaders [OF assms(6-8)] show ?thesis
    by (auto simp: getHandler_def Let_def)
qed

theorem missing_required_header_rejected_witness:
  "http_method (get_request ''/http://example.com/'' [(''host'', ''proxy.example.org'')])
     \<noteq> Some ''OPTIONS'' \<and>
   parseURL (map_option (drop 1)
     (url (get_request ''/http://example.com/'' [(''host'', ''proxy.example.org'')]))) =
     Inr (Some u_example_com) \<and>
   requiredHeaderArray (requireHeader blocking_options) = [''origin'', ''x-requested-with''] \<and>
   getHandler example_env blocking_options
     (get_request ''/http://example.com/'' [(''host'', ''proxy.example.org'')]) Map.empty =
     (Responded 400 ''Header required''
        [(''access-control-allow-origin'', ''*''),
         (''access-control-expose-headers'', ''access-control-allow-origin'')]
        ''Missing required request header. Must specify one of: origin,x-requested-with'',
      Map.empty)"
proof -
  let ?r = "get_request ''/http://example.com/'' [(''host'', ''proxy.example.org'')]"
  have 1: "http_method ?r \<noteq> Some ''OPTIONS''"
    by (simp add: get_request_def)
  have 2: "parseURL (map_option (drop 1) (url ?r)) = Inr (Some u_example_com)"
    by (simp add: get_request_def parseURL_example_com)
  have 3: "\<not> handledInitially blocking_options
      (snd (withCORS [] ?r (corsMaxAge blocking_options))) (Some u_example_com)"
    by (simp add: handledInitially_def options_eval blocking_options_def)
  have 4: "explicit_scheme (or_empty (url ?r)) \<or> isValidHostName example_env (hostname u_example_com)"
    by (simp add: explicit_scheme_def or_empty_def get_request_def)
  have 5: "requiredHeaderArray (requireHeader blocking_options) = [''origin'', ''x-requested-with'']"
    by (simp add: requiredHeaderArray_def options_eval blocking_options_def string_eval)
  then have 6: "requiredHeaderArray (requireHeader blocking_options) \<noteq> []" by simp
  have 7: "''constructor'' \<notin> set (requiredHeaderArray (requireHeader blocking_options))"
    unfolding 5 by simp
  have 8: "''__proto__'' \<notin> set (requiredHeaderArray (requireHeader blocking_options))"
    unfolding 5 by simp
  have 9: "list_all (\<lambda>headerName. case map_of (headers ?r) headerName of
                    None \<Rightarrow> True | Some v \<Rightarrow> v = [] \<and> headerName \<noteq> ''set-cookie'')
      (requiredHeaderArray (requireHeader blocking_options))"
    unfolding 5 by (simp add: get_request_def)
  have c: "fst (withCORS [] ?r (corsMaxAge blocking_options)) =
      [(''access-control-allow-origin'', ''*''),
       (''access-control-expose-headers'', ''access-control-allow-origin'')]"
    by (simp add: handler_eval options_eval blocking_options_def string_eval)
  have t: "requireHeader_text (requireHeader blocking_options) = ''origin,x-requested-with''"
    by (simp add: requireHeader_text_def options_eval blocking_options_def)
  from missing_required_header_rejected [OF 1 2 3 4 6 7 8 9, of Map.empty, unfolded c t] 1 2 5
  show ?thesis by simp
qed

theorem missing_required_header_counterexample:
  "requiredHeaderArray (requireHeader blocking_options) = [''origin'', ''x-requested-with''] \<and>
   parseURL (Some ''favicon.ico'') = Inr (Some u_favicon) \<and>
   getHandler example_env blocking_options
     (get_request ''/favicon.ico'' [(''host'', ''proxy.example.org'')]) Map.empty =
     (Responded 404 ''Invalid host''
        [(''access-control-allow-origin'', ''*''),
         (''access-control-expose-headers'', ''access-control-allow-origin'')]
        ''Invalid host: favicon.ico'', Map.empty) \<and>
   requiredHeaderArray
     (requireHeader (defaultHandlerOptions no_proxy_env :: accessedHosts CorsProxyOptions)) = [] \<and>
   getHandler example_env (defaultHandlerOptions no_proxy_env)
     (get_request ''/http://example.com/''
        [(''host'', ''proxy.example.org''), (''origin'', ''http://client.example.org'')])
     (Map.empty :: accessedHosts) =
     (Responded 400 ''Header required''
        [(''access-control-allow-origin'', ''*''),
         (''access-control-expose-headers'', ''access-control-allow-origin'')]
        ''Missing required request header. Must specify one of: null'', Map.empty)"
  by (simp add: handler_eval options_eval blocking_options_def string_eval url_eval
      parseURL_example_com parseURL_favicon u_example_com_def u_favicon_def)



lemma inherited_name_passes:
  "requiredHeaderArray (RequireArray [''constructor'']) = [''constructor''] \<and>
   hasRequiredHeaders (RequireArray [''constructor'']) [(''host'', ''proxy.example.org'')] \<and>
   getHandler example_env
     ((server_options no_proxy_env [] [] None)\<lparr> requireHeader := RequireArray [''constructor''] \<rparr>)
     (get_request ''/http://example.com/'' [(''host'', ''proxy.example.org'')]) Map.empty =
     (Proxied (get_request ''/http://example.com/'' [(''host'', ''proxy.example.org'')])
        \<lparr> location = u_example_com,
          getProxyForUrl_state = Some (getProxyForUrl no_proxy_env),
          proxyBaseUrl = ''http://proxy.example.org'', maxRedirects_state = 5,
          redirectCount = None, corsMaxAge_state = 0 \<rparr>, Map.empty)"
  by (simp add: handler_eval options_eval string_eval url_eval parseURL_example_com
      u_example_com_def)

text \<open>
  C6, as amended. A request that is not an \<open>OPTIONS\<close> request, that
  \<open>handleInitialRequest\<close> does not take, whose path resolves to a target that passes the
  host check, and that still carries a required header once \<open>withCORS\<close> has taken the
  two \<open>access-control-request\<close> headers off it, is answered with status 403 and the
  blacklist message when its origin is in \<open>originBlacklist\<close>; nothing is asked of
  \<open>originWhitelist\<close>, so the answer is the same when the origin is in that list too.
\<close>

theorem blacklisted_origin_forbidden:
  assumes "http_method request \<noteq> Some ''OPTIONS''"
    and "parseURL (map_option (drop 1) (url request)) = Inr (Some loc)"
    and "\<not> handledInitially corsOptions (snd (withCORS [] request (corsMaxAge corsOptions))) (Some loc)"
    and "explicit_scheme (or_empty (url request)) \<or> isValidHostName e (hostname loc)"
    and "hasRequiredHeaders (requireHeader corsOptions)
           (headers (snd (withCORS [] request (corsMaxAge corsOptions))))"
    and "or_empty (map_of (headers request) ''origin'') \<in> set (originBlacklist corsOptions)"
  shows "getHandler e corsOptions request st =
           (Responded 403 ''Forbidden''
              (fst (withCORS [] request (corsMaxAge corsOptions)))
              (''The origin '' @ [CHR 0x22] @ or_empty (map_of (headers request) ''origin'') @
               [CHR 0x22] @ '' was blacklisted by the operator of this proxy.''), st)"
proof -
  from assms(2) have "\<not> 65535 < port_number loc"
    by (simp add: not_less parseURL_port)
  moreover have "map_of (headers (snd (withCORS [] request (corsMaxAge corsOptions)))) ''origin'' =
      map_of (headers request) ''origin''"
    by (rule withCORS_request_headers) simp_all
  ultimately show ?thesis
    using assms by (auto simp: getHandler_def Let_def)
qed

theorem blacklisted_origin_forbidden_witness:
  "or_empty (map_of (headers (get_request ''/http://example.com/''
       [(''host'', ''proxy.example.org''), (''origin'', ''http://evil.example.com'')])) ''origin'')
     \<in> set (originBlacklist blocking_options) \<and>
   or_empty (map_of (headers (get_request ''/http://example.com/''
       [(''host'', ''proxy.example.org''), (''origin'', ''http://evil.example.com'')])) ''origin'')
     \<in> set (originWhitelist blocking_options) \<and>
   getHandler example_env blocking_options
     (get_request ''/http://example.com/''
        [(''host'', ''proxy.example.org''), (''origin'', ''http://evil.example.com'')]) Map.empty =
     (Responded 403 ''Forbidden''
        [(''access-control-allow-origin'', ''*''),
         (''access-control-expose-headers'', ''access-control-allow-origin'')]
        (''The origin '' @ [CHR 0x22] @ ''http://evil.example.com'' @ [CHR 0x22] @
         '' was blacklisted by the operator of this proxy.''), Map.empty)"
proof -
  let ?r = "get_request ''/http://example.com/''
       [(''host'', ''proxy.example.org''), (''origin'', ''http://evil.example.com'')]"
  have 1: "http_method ?r \<noteq> Some ''OPTIONS''"
    by (simp add: get_request_def)
  have 2: "parseURL (map_option (drop 1) (url ?r)) = Inr (Some u_example_com)"
    by (simp add: get_request_def parseURL_example_com)
  have 3: "\<not> handledInitially blocking_options
      (snd (withCORS [] ?r (corsMaxAge blocking_options))) (Some u_example_com)"
    by (simp add: handledInitially_def options_eval blocking_options_def)
  have 4: "explicit_scheme (or_empty (url ?r)) \<or> isValidHostName example_env (hostname u_example_com)"
    by (simp add: explicit_scheme_def or_empty_def get_request_def)
  have 5: "hasRequiredHeaders (requireHeader blocking_options)
      (headers (snd (withCORS [] ?r (corsMaxAge blocking_options))))"
    by (simp add: hasRequiredHeaders_def requiredHeaderArray_def array_truthy_def withCORS_def
        header_truthy_def truthy_def Let_def options_eval blocking_options_def string_eval)
  have 6: "or_empty (map_of (headers ?r) ''origin'') \<in> set (originBlacklist blocking_options)"
    by (simp add: or_empty_def options_eval blocking_options_def)
  have 7: "or_empty (map_of (headers ?r) ''origin'') \<in> set (originWhitelist blocking_options)"
    by (simp add: or_empty_def options_eval blocking_options_def)
  have c: "fst (withCORS [] ?r (corsMaxAge blocking_options)) =
      [(''access-control-allow-origin'', ''*''),
       (''access-control-expose-headers'', ''access-control-allow-origin'')]"
    by (simp add: handler_eval options_eval blocking_options_def string_eval)
  have o: "or_empty (map_of (headers ?r) ''origin'') = ''http://evil.example.com''"
    by (simp add: or_empty_def get_request_def)
  from blacklisted_origin_forbidden [OF 1 2 3 4 5 6, of Map.empty, unfolded c] 6 7
  show ?thesis unfolding o by simp
qed

theorem blacklisted_origin_counterexample:
  "''http://evil.example.com'' \<in> set (originBlacklist blocking_options) \<and>
   getHandler example_env blocking_options
     \<lparr> http_method = Some ''OPTIONS'', url = Some ''/http://example.com/'',
       headers = [(''host'', ''proxy.example.org''), (''origin'', ''http://evil.example.com'')] \<rparr>
     Map.empty =
     (Responded 200 ''OK''
        [(''access-control-allow-origin'', ''*''),
         (''access-control-expose-headers'', ''access-control-allow-origin'')] [], Map.empty)"
  by (simp add: handler_eval options_eval blocking_options_def string_eval url_eval parseURL_example_com
      u_example_com_def)

lemma invalid_port_never_answered:
  "fst (getHandler e corsOptions request st) \<noteq> Responded 400 ''Invalid port'' hdrs body"
proof
  assume a: "fst (getHandler e corsOptions request st) = Responded 400 ''Invalid port'' hdrs body"
  show False
  proof (cases "parseURL (map_option (drop 1) (url request))")
    case (Inl err)
    with a show False by (simp add: getHandler_def Let_def)
  next
    case (Inr parsed)
    show False
    proof (cases parsed)
      case None
      with a Inr show False
        by (simp add: getHandler_def Let_def split: if_splits)
    next
      case (Some loc)
      with Inr have "\<not> 65535 < port_number loc"
        by (simp add: not_less parseURL_port)
      with a Inr Some show False
        by (simp add: getHandler_def Let_def split: if_splits option.splits)
    qed
  qed
qed

text \<open>
  C3. The claim fails on the code. A path that embeds a port above 65535 never reaches
  the port check of the handler: \<open>parseURL\<close> hands the text to \<open>new URL\<close>, which throws
  a \<open>TypeError\<close> for such a port, and the handler, which calls \<open>parseURL\<close> outside any
  \<open>try\<close>, throws with it and writes no response, whatever the options, the method and
  the headers are.
\<close>

theorem port_above_65535_throws:
  "getHandler e corsOptions
     \<lparr> http_method = m, url = Some ''/example.com:70000/'', headers = hdrs \<rparr> st =
     (Thrown TypeError, st)"
  by (simp add: getHandler_def Let_def parseURL_port_70000)

section \<open>withCORS\<close>

lemma array_index_show: "array_index k = Some n \<Longrightarrow> show_nat n = k"
  by (auto simp: array_index_def split: if_splits)

lemma set_map_filter: "set (List.map_filter f xs) = {y. \<exists>x \<in> set xs. f x = Some y}"
  by (induction xs) (auto simp: List.map_filter_simps split: option.splits)

lemma set_object_keys: "set (object_keys h) = fst ` set h"
proof -
  have "show_nat ` set (List.map_filter array_index (map fst h)) =
        {k \<in> fst ` set h. array_index k \<noteq> None}" (is "?L = ?R")
  proof
    show "?L \<subseteq> ?R"
    proof
      fix k assume "k \<in> ?L"
      then obtain x n where x: "x \<in> fst ` set h" "array_index x = Some n" "k = show_nat n"
        unfolding set_map_filter by auto
      from x(2) have "show_nat n = x" by (rule array_index_show)
      with x show "k \<in> ?R" by simp
    qed
    show "?R \<subseteq> ?L"
    proof
      fix k assume "k \<in> ?R"
      then obtain n where k: "k \<in> fst ` set h" "array_index k = Some n" by auto
      from k(2) have "show_nat n = k" by (rule array_index_show)
      moreover from k have "n \<in> set (List.map_filter array_index (map fst h))"
        unfolding set_map_filter by auto
      ultimately show "k \<in> ?L" by blast
    qed
  qed
  then show ?thesis
    by (auto simp: object_keys_def)
qed

lemma split_on_no_delimiter: "d \<notin> set x \<Longrightarrow> split_on d x = [x]"
  by (induction x) auto

lemma split_on_append: "d \<notin> set x \<Longrightarrow> split_on d (x @ d # r) = x # split_on d r"
  by (induction x) auto

lemma split_on_join:
  "ks \<noteq> [] \<Longrightarrow> list_all (\<lambda>k. CHR '','' \<notin> set k) ks \<Longrightarrow>
   split_on (CHR '','') (join '','' ks) = ks"
proof (induction "'',''" ks rule: join.induct)
  case 1
  then show ?case by simp
next
  case (2 x)
  then show ?case by (simp add: split_on_no_delimiter)
next
  case (3 x y ys)
  then show ?case by (simp add: split_on_append)
qed

lemma withCORS_shape:
  "\<exists>h4. fst (withCORS hdrs r a) =
          AList.update ''access-control-expose-headers'' (join '','' (object_keys h4)) h4 \<and>
        fst ` set hdrs \<subseteq> fst ` set h4 \<and>
        ''access-control-allow-origin'' \<in> fst ` set h4 \<and>
        fst ` set h4 \<subseteq> fst ` set hdrs \<union>
          {''access-control-allow-origin'', ''access-control-max-age'',
           ''access-control-allow-methods'', ''access-control-allow-headers''}"
  unfolding withCORS_def Let_def fst_conv
  by (rule exI, rule conjI, rule refl)
     (auto simp: AList.dom_update split: option.splits if_splits)

text \<open>
  C9, as amended. When no header name of the given headers object contains a comma,
  the names that the \<open>access-control-expose-headers\<close> value of the returned object
  lists, separated by commas, are the names of all headers of the returned object, those
  set in the same call included, but for \<open>access-control-expose-headers\<close> itself: the
  list is taken before that header is assigned, so it names the header only when the
  given object already had it.
\<close>

theorem expose_headers_lists_names:
  assumes "list_all (\<lambda>k. CHR '','' \<notin> set k) (map fst hdrs)"
  shows "set (split_on (CHR '','')
                (or_empty (map_of (fst (withCORS hdrs request maxAge))
                             ''access-control-expose-headers''))) =
         fst ` set (fst (withCORS hdrs request maxAge)) -
           (if ''access-control-expose-headers'' \<in> fst ` set hdrs then {}
            else {''access-control-expose-headers''})"
proof -
  from withCORS_shape [of hdrs request maxAge] obtain h4 where
    eq: "fst (withCORS hdrs request maxAge) =
          AList.update ''access-control-expose-headers'' (join '','' (object_keys h4)) h4"
    and lower: "fst ` set hdrs \<subseteq> fst ` set h4"
    and origin: "''access-control-allow-origin'' \<in> fst ` set h4"
    and upper: "fst ` set h4 \<subseteq> fst ` set hdrs \<union>
          {''access-control-allow-origin'', ''access-control-max-age'',
           ''access-control-allow-methods'', ''access-control-allow-headers''}"
    by blast
  from origin have ne: "object_keys h4 \<noteq> []"
    using set_object_keys [of h4] by auto
  have "\<forall>k \<in> fst ` set h4. CHR '','' \<notin> set k"
  proof
    fix k assume "k \<in> fst ` set h4"
    with upper have "k \<in> fst ` set hdrs \<or> k \<in> {''access-control-allow-origin'',
        ''access-control-max-age'', ''access-control-allow-methods'',
        ''access-control-allow-headers''}" by blast
    then show "CHR '','' \<notin> set k"
    proof
      assume "k \<in> fst ` set hdrs"
      with assms show ?thesis by (auto simp: list_all_iff)
    next
      assume "k \<in> {''access-control-allow-origin'', ''access-control-max-age'',
        ''access-control-allow-methods'', ''access-control-allow-headers''}"
      then show ?thesis by auto
    qed
  qed
  then have "list_all (\<lambda>k. CHR '','' \<notin> set k) (object_keys h4)"
    using set_object_keys [of h4] by (simp add: list_all_iff)
  from split_on_join [OF ne this]
  have listed: "set (split_on (CHR '','') (join '','' (object_keys h4))) = fst ` set h4"
    by (simp add: set_object_keys)
  have "(''access-control-expose-headers'' \<in> fst ` set h4) =
        (''access-control-expose-headers'' \<in> fst ` set hdrs)"
    using lower upper by auto
  with listed show ?thesis
    unfolding eq by (auto simp: AList.update_conv' AList.dom_update or_empty_def)
qed

theorem expose_headers_lists_names_witness:
  "list_all (\<lambda>k. CHR '','' \<notin> set k)
     (map fst [(''content-type'', ''text/html''), (''access-control-expose-headers'', ''x-old'')]) \<and>
   set (split_on (CHR '','')
          (or_empty (map_of
             (fst (withCORS
                [(''content-type'', ''text/html''), (''access-control-expose-headers'', ''x-old'')]
                \<lparr> http_method = Some ''OPTIONS'', url = Some ''/http://example.com/'',
                  headers = [(''access-control-request-method'', ''PUT'')] \<rparr> 600))
             ''access-control-expose-headers''))) =
     {''content-type'', ''access-control-expose-headers'', ''access-control-allow-origin'',
      ''access-control-max-age'', ''access-control-allow-methods''}"
proof -
  let ?h = "[(''content-type'', ''text/html''), (''access-control-expose-headers'', ''x-old'')]"
  let ?r = "\<lparr> http_method = Some ''OPTIONS'', url = Some ''/http://example.com/'',
                  headers = [(''access-control-request-method'', ''PUT'')] \<rparr>"
  have 1: "list_all (\<lambda>k. CHR '','' \<notin> set k) (map fst ?h)" by simp
  have 2: "fst ` set (fst (withCORS ?h ?r 600)) -
      (if ''access-control-expose-headers'' \<in> fst ` set ?h then {}
       else {''access-control-expose-headers''}) =
     {''content-type'', ''access-control-expose-headers'', ''access-control-allow-origin'',
      ''access-control-max-age'', ''access-control-allow-methods''}"
    by (simp add: withCORS_def truthy_def Let_def AList.dom_update)
  from expose_headers_lists_names [OF 1, of ?r 600] 1 show ?thesis
    unfolding 2 by blast
qed

theorem expose_headers_counterexample:
  "''access-control-expose-headers'' \<in>
     fst ` set (fst (withCORS [] (get_request ''/http://example.com/'' []) 0)) \<and>
   ''access-control-expose-headers'' \<notin>
     set (split_on (CHR '','')
            (or_empty (map_of (fst (withCORS [] (get_request ''/http://example.com/'' []) 0))
               ''access-control-expose-headers'')))"
  by (simp add: handler_eval options_eval string_eval)

section \<open>getProxyForUrl\<close>

lemma new_URL_example_com: "new_URL ''http://example.com/'' = Some u_example_com"
  by (simp add: url_eval string_eval u_example_com_def)

lemma new_URL_bare_host: "new_URL ''localhost'' = None"
  by (simp add: url_eval string_eval)

text \<open>
  C2. The claim fails on the code, in both halves. \<open>getProxyForUrl\<close> returns no proxy
  when \<open>shouldProxyUrl\<close> is true, and \<open>shouldProxyUrl\<close> is true when no \<open>NO_PROXY\<close> value
  is set and false when the value is the wildcard. So with the wildcard the configured
  proxy endpoint is returned for the target, and with no value set the result is never
  a proxy endpoint, whatever endpoints are configured.
\<close>

theorem no_proxy_wildcard_and_unset:
  "getProxyForUrl wildcard_env ''http://example.com/'' = Inr (Some ''http://proxy.internal:3128'') \<and>
   getProxyForUrl \<lparr> NO_PROXY = None, HTTP_PROXY = http_proxy, HTTPS_PROXY = https_proxy,
                    ALL_PROXY = all_proxy \<rparr> targetUrl =
     (if new_URL targetUrl = None then Inl TypeError else Inr None)"
  by (simp add: getProxyForUrl_def shouldProxyUrl_def wildcard_env_def new_URL_example_com
      u_example_com_def hostname_def protocol_def truthy_def Let_def split: option.splits)

text \<open>
  C8. The claim fails on the code. Every entry of the \<open>NO_PROXY\<close> list is handed to
  \<open>new URL\<close>, which throws a \<open>TypeError\<close> for a bare host name, and nothing catches it:
  with the list \<open>localhost\<close> the call throws for a target on another host.
\<close>

theorem no_proxy_bare_host_throws:
  "getProxyForUrl bare_host_env ''http://example.com/'' = Inl TypeError"
  by (simp add: getProxyForUrl_def shouldProxyUrl_def bare_host_env_def new_URL_example_com
      new_URL_bare_host u_example_com_def hostname_def)

section \<open>The forwarder\<close>

lemma href_t_example: "href (t_example p) = ''http://t.example.com'' @ p"
  by (simp add: href_def t_example_def)

lemma path_t_example: "path (t_example p) = p"
  by (simp add: t_example_def)

lemma host_str_t_example: "host_str (t_example p) = ''t.example.com''"
  by (simp add: host_str_def hostname_def t_example_def)

lemma href_through_proxy_c:
  "href through_proxy_c = ''http://proxy.example.org/http://t.example.com/c''"
  by (simp add: href_def through_proxy_c_def)

lemma new_URL_t_example:
  "new_URL ''http://t.example.com/a'' = Some (t_example ''/a'')"
  "new_URL ''http://t.example.com/b'' = Some (t_example ''/b'')"
  by (simp_all add: url_eval string_eval t_example_def)

lemma resolve_locations:
  "new_URL_base ''/b'' ''http://t.example.com/a'' = Some (t_example ''/b'')"
  "new_URL_base ''/c'' ''http://t.example.com/b'' = Some (t_example ''/c'')"
  "new_URL_base ''http://proxy.example.org/http://t.example.com/c'' ''http://t.example.com/b'' =
     Some through_proxy_c"
  by (simp_all add: url_eval string_eval t_example_def through_proxy_c_def)

lemma parseURL_locations:
  "parseURL (Some ''http://t.example.com/a'') = Inr (Some (t_example ''/a''))"
  "parseURL (Some ''http://t.example.com/b'') = Inr (Some (t_example ''/b''))"
  "parseURL (Some ''http://t.example.com/c'') = Inr (Some (t_example ''/c''))"
  "parseURL (Some ''http://proxy.example.org/http://t.example.com/c'') = Inr (Some through_proxy_c)"
  by (simp_all add: parseURL_eval url_eval string_eval t_example_def through_proxy_c_def)

lemma getProxyForUrl_unset:
  "new_URL targetUrl = Some u \<Longrightarrow> getProxyForUrl no_proxy_env targetUrl = Inr None"
  by (simp add: getProxyForUrl_def shouldProxyUrl_def no_proxy_env_def)

lemma two_hop_admitted:
  "getHandler example_env one_redirect_options two_hop_request Map.empty =
     (Proxied two_hop_request two_hop_state, Map.empty)"
  by (simp add: handler_eval options_eval one_redirect_options_def string_eval url_eval parseURL_locations
      two_hop_request_def two_hop_state_def t_example_def)

lemma two_hop_start:
  "start_forwarding example_env two_hop_request two_hop_state =
     Inr \<lparr> corsState = two_hop_state,
           req = two_hop_request\<lparr> url := Some ''/a'' \<rparr>,
           res_headers = [], proxyRes_listeners = 1,
           issued = [\<lparr> out_request = two_hop_request\<lparr> url := Some ''/a'' \<rparr>,
                      out_options = \<lparr> target = ''http://t.example.com/a'',
                                      options_headers = [(''host'', ''t.example.com'')],
                                      auth = None, toProxy = False \<rparr> \<rparr>] \<rparr>"
  by (simp add: proxyRequest_def on_proxyRes_then_web_def handleRedirectStatus_def
      onProxyResponse_def deliver_def start_forwarding_def two_hop_state_def two_hop_request_def
      two_redirects_def get_request_def example_env_def truthy_def or_empty_def Let_def
      href_t_example path_t_example host_str_t_example href_through_proxy_c resolve_locations
      parseURL_locations new_URL_t_example [THEN getProxyForUrl_unset] digit_char_def
      show_nat_digit show_nat_step)

lemma two_hop_first_response:
  "deliver example_env two_redirects
     \<lparr> corsState = two_hop_state,
       req = two_hop_request\<lparr> url := Some ''/a'' \<rparr>,
       res_headers = [], proxyRes_listeners = 1,
       issued = [\<lparr> out_request = two_hop_request\<lparr> url := Some ''/a'' \<rparr>,
                  out_options = \<lparr> target = ''http://t.example.com/a'',
                                  options_headers = [(''host'', ''t.example.com'')],
                                  auth = None, toProxy = False \<rparr> \<rparr>] \<rparr> =
   Some (Inr
     (\<lparr> corsState = two_hop_state\<lparr> location := t_example ''/b'', redirectCount := Some 1 \<rparr>,
        req = \<lparr> http_method = Some ''GET'', url = Some ''/b'',
                headers = [(''host'', ''proxy.example.org''),
                           (''origin'', ''http://client.example.org''),
                           (''content-length'', ''0'')] \<rparr>,
        res_headers = [(''x-request-url'', ''http://t.example.com/a''),
                       (''X-CORS-Redirect-1'', ''302 http://t.example.com/b'')],
        proxyRes_listeners = 2,
        issued = [\<lparr> out_request =
                      \<lparr> http_method = Some ''GET'', url = Some ''/b'',
                        headers = [(''host'', ''proxy.example.org''),
                                   (''origin'', ''http://client.example.org''),
                                   (''content-length'', ''0'')] \<rparr>,
                   out_options = \<lparr> target = ''http://t.example.com/b'',
                                   options_headers = [(''host'', ''t.example.com'')],
                                   auth = None, toProxy = False \<rparr> \<rparr>] \<rparr>,
      \<lparr> statusCode = Some 302, response_headers = [(''location'', ''/b'')] \<rparr>))"
  by (simp add: proxyRequest_def on_proxyRes_then_web_def handleRedirectStatus_def
      onProxyResponse_def deliver_def start_forwarding_def two_hop_state_def two_hop_request_def
      two_redirects_def get_request_def example_env_def truthy_def or_empty_def Let_def
      href_t_example path_t_example host_str_t_example href_through_proxy_c resolve_locations
      parseURL_locations new_URL_t_example [THEN getProxyForUrl_unset] digit_char_def
      show_nat_digit show_nat_step)

lemma two_hop_second_response:
  "deliver example_env two_redirects
     \<lparr> corsState = two_hop_state\<lparr> location := t_example ''/b'', redirectCount := Some 1 \<rparr>,
        req = \<lparr> http_method = Some ''GET'', url = Some ''/b'',
                headers = [(''host'', ''proxy.example.org''),
                           (''origin'', ''http://client.example.org''),
                           (''content-length'', ''0'')] \<rparr>,
        res_headers = [(''x-request-url'', ''http://t.example.com/a''),
                       (''X-CORS-Redirect-1'', ''302 http://t.example.com/b'')],
        proxyRes_listeners = 2,
        issued = [\<lparr> out_request =
                      \<lparr> http_method = Some ''GET'', url = Some ''/b'',
                        headers = [(''host'', ''proxy.example.org''),
                                   (''origin'', ''http://client.example.org''),
                                   (''content-length'', ''0'')] \<rparr>,
                   out_options = \<lparr> target = ''http://t.example.com/b'',
                                   options_headers = [(''host'', ''t.example.com'')],
                                   auth = None, toProxy = False \<rparr> \<rparr>] \<rparr> =
   Some (Inr
     (\<lparr> corsState = two_hop_state\<lparr> location := t_example ''/b'', redirectCount := Some 3 \<rparr>,
        req = \<lparr> http_method = Some ''GET'', url = Some ''/b'',
                headers = [(''host'', ''proxy.example.org''),
                           (''origin'', ''http://client.example.org''),
                           (''content-length'', ''0'')] \<rparr>,
        res_headers = [(''x-request-url'', ''http://t.example.com/a''),
                       (''X-CORS-Redirect-1'', ''302 http://t.example.com/b'')],
        proxyRes_listeners = 2,
        issued = [] \<rparr>,
      \<lparr> statusCode = Some 302,
        response_headers =
          [(''location'',
            ''http://proxy.example.org/http://proxy.example.org/http://t.example.com/c'')] \<rparr>))"
  by (simp add: proxyRequest_def on_proxyRes_then_web_def handleRedirectStatus_def
      onProxyResponse_def deliver_def start_forwarding_def two_hop_state_def two_hop_request_def
      two_redirects_def get_request_def example_env_def truthy_def or_empty_def Let_def
      href_t_example path_t_example host_str_t_example href_through_proxy_c resolve_locations
      parseURL_locations new_URL_t_example [THEN getProxyForUrl_unset] digit_char_def
      show_nat_digit show_nat_step numeral_2_eq_2)

lemma deliver_n_2:
  "deliver_n e upstream 2 w =
     (case deliver e upstream w of
        None \<Rightarrow> Inr (w, [])
      | Some (Inl err) \<Rightarrow> Inl err
      | Some (Inr (w', p)) \<Rightarrow>
          (case deliver e upstream w' of
             None \<Rightarrow> Inr (w', [p])
           | Some (Inl err) \<Rightarrow> Inl err
           | Some (Inr (w'', p')) \<Rightarrow> Inr (w'', [p, p'])))"
  by (simp add: numeral_2_eq_2 split: option.splits sum.splits prod.splits)

text \<open>
  C4. The claim fails on the code. \<open>proxyRequest\<close> adds a listener for \<open>proxyRes\<close>
  to the proxy server every time it runs, once from the handler and once more for every
  redirect it follows, and each of them works on the one \<open>CorsState\<close> of the request.
  With \<open>maxRedirects = 1\<close> and an upstream that redirects twice, the first response meets
  one listener, which counts 1 and re-issues the request, as the claim says. The second
  response meets two: the first counts 2, beyond \<open>maxRedirects\<close>, and rewrites
  \<open>Location\<close> to the proxy base URL, a slash and the absolute location; the second reads
  the rewritten header back, counts 3 and rewrites it again. The response keeps its
  status 302, but its \<open>Location\<close> names the proxy twice and the counter stands at 3.
\<close>

theorem second_redirect_handled_twice:
  "getHandler example_env one_redirect_options two_hop_request Map.empty =
     (Proxied two_hop_request two_hop_state, Map.empty) \<and>
   map_sum id
     (\<lambda>(w, responses).
        (proxyRes_listeners w, redirectCount (corsState w),
         map (\<lambda>p. (statusCode p, map_of (response_headers p) ''location'')) responses))
     (case start_forwarding example_env two_hop_request two_hop_state of
        Inl err \<Rightarrow> Inl err
      | Inr w \<Rightarrow> deliver_n example_env two_redirects 2 w) =
     Inr (2, Some 3,
          [(Some 302, Some ''/b''),
           (Some 302,
            Some ''http://proxy.example.org/http://proxy.example.org/http://t.example.com/c'')])"
  unfolding two_hop_admitted two_hop_start deliver_n_2 sum.case two_hop_first_response
    option.case prod.case two_hop_second_response
  by simp

end
